theory Spec2Isabelle
  imports Complex_Main "HOL-Library.Log_Nat" "HOL-Library.List_Lexorder" "HOL-Library.Sublist"
begin

section \<open>Data model (backend/common/models/index.js)\<close>

text \<open>
  Document identifiers (Mongo ObjectIds) are natural numbers, timestamps (\<open>Date.now()\<close>)
  are natural numbers. Schema enums are datatypes. Strings are ASCII text.
\<close>

type_synonym oid = nat
type_synonym time = nat

datatype component_type = Language | Framework | Library | Database | Container | Other

datatype severity = Critical | High | Medium | Low | Info

datatype vuln_status = Open | Fixed | Mitigated | False_positive | Wont_fix

datatype service_status = Secure | Vulnerable | Outdated | Unknown

datatype notification_type = NVulnerability | NUpdate | NReport | NSystem | NUser

record component =
  c_id :: oid
  c_name :: string
  c_version :: string
  c_type :: component_type
  c_latestVersion :: "string option"
  c_updateAvailable :: bool
  c_lastChecked :: time

record vulnerability =
  v_id :: oid
  v_severity :: severity
  v_status :: vuln_status

text \<open>One entry of \<open>Service.vulnerabilities\<close>: two optional references.\<close>

record vuln_ref =
  vr_component :: "oid option"
  vr_details :: "oid option"

record service =
  s_id :: oid
  s_name :: string
  s_components :: "oid list"
  s_vulnerabilities :: "vuln_ref list"
  s_lastScan :: "time option"
  s_status :: service_status

text \<open>
  The texts the services write are literals and templates with accented characters; each
  is a constructor here, a template carrying the values interpolated into it. \<open>Plain\<close>
  is a text supplied by a caller.
\<close>

datatype msg =
    Plain string
  | UpdateTitle
  | UpdateMessage string string string
  | FixCritical
  | PlanHigh
  | PrioritizeVulnerable nat
  | UpdateOutdated nat
  | ContinuousMonitoring
  | SecurityTests

record notification =
  n_id :: oid
  n_title :: msg
  n_message :: msg
  n_type :: notification_type
  n_severity :: severity
  n_service :: "oid option"
  n_read :: bool
  n_recipients :: "oid list"
  n_createdAt :: time
  n_updatedAt :: time

record summary =
  totalServices :: nat
  secureServices :: nat
  vulnerableServices :: nat
  outdatedServices :: nat
  criticalVulnerabilities :: nat
  highVulnerabilities :: nat
  mediumVulnerabilities :: nat
  lowVulnerabilities :: nat

text \<open>
  A report; \<open>filePath\<close> is \<open>/reports/<now>_report.<format>\<close>, kept as the time
  \<open>r_generatedAt\<close> and the format it is built from.
\<close>

record report =
  r_id :: oid
  r_title :: string
  r_services :: "oid list"
  r_summary :: summary
  r_format :: string
  r_recommendations :: "msg list"
  r_generatedBy :: oid
  r_generatedAt :: time

text \<open>
  The document store: one list per collection, in insertion order, and the next
  identifier the driver hands out.
\<close>

record store =
  components :: "component list"
  vulnerabilities :: "vulnerability list"
  services :: "service list"
  notifications :: "notification list"
  reports :: "report list"
  next_oid :: oid

section \<open>Store operations (backend/common/utils/dataAccessObjects.js)\<close>

text \<open>\<open>findOne\<close>, \<open>findById\<close>: the first document matching the filter, or null.\<close>

definition findOne :: "('a \<Rightarrow> bool) \<Rightarrow> 'a list \<Rightarrow> 'a option" where
  "findOne p xs = find p xs"

text \<open>\<open>findByIdAndUpdate\<close>: rewrites the first document matching the filter.\<close>

fun update_first :: "('a \<Rightarrow> bool) \<Rightarrow> ('a \<Rightarrow> 'a) \<Rightarrow> 'a list \<Rightarrow> 'a list" where
  "update_first p f [] = []"
| "update_first p f (x # xs) = (if p x then f x # xs else x # update_first p f xs)"

text \<open>\<open>updateMany\<close>: rewrites every document matching the filter.\<close>

definition updateMany :: "('a \<Rightarrow> bool) \<Rightarrow> ('a \<Rightarrow> 'a) \<Rightarrow> 'a list \<Rightarrow> 'a list" where
  "updateMany p f xs = map (\<lambda>d. if p d then f d else d) xs"

text \<open>The schemas' \<open>trim\<close> setter, on ASCII white space.\<close>

definition is_space :: "char \<Rightarrow> bool" where
  "is_space c = (c \<in> set [CHR 0x09, CHR 0x0A, CHR 0x0B, CHR 0x0C, CHR 0x0D, CHR 0x20])"

definition trim :: "string \<Rightarrow> string" where
  "trim s = rev (dropWhile is_space (rev (dropWhile is_space s)))"

section \<open>Report generator (services/report-generator/reportGeneratorService.js)\<close>

text \<open>
  A service as \<open>serviceDAO.findById(id, [populate ...])\<close> returns it: each entry of
  \<open>vulnerabilities\<close> with its \<open>details\<close> reference replaced by the document, or by
  null when the reference is absent or dangling.
\<close>

record populated_service =
  ps_id :: oid
  ps_status :: service_status
  ps_details :: "vulnerability option list"

definition populate :: "store \<Rightarrow> service \<Rightarrow> populated_service" where
  "populate st s =
     \<lparr>ps_id = s_id s, ps_status = s_status s,
      ps_details = map (\<lambda>r. case vr_details r of
                               None \<Rightarrow> None
                             | Some d \<Rightarrow> findOne (\<lambda>v. v_id v = d) (vulnerabilities st))
                       (s_vulnerabilities s)\<rparr>"

definition findById_populated :: "store \<Rightarrow> oid \<Rightarrow> populated_service option" where
  "findById_populated st i = map_option (populate st) (findOne (\<lambda>s. s_id s = i) (services st))"

text \<open>The body of the inner \<open>forEach\<close>: one vulnerability entry.\<close>

definition count_vulnerability :: "summary \<Rightarrow> vulnerability option \<Rightarrow> summary" where
  "count_vulnerability sm vuln =
     (case vuln of
        None \<Rightarrow> sm
      | Some d \<Rightarrow>
          (let sm1 = (if v_severity d = Critical
                      then sm\<lparr>criticalVulnerabilities := criticalVulnerabilities sm + 1\<rparr> else sm);
               sm2 = (if v_severity d = High
                      then sm1\<lparr>highVulnerabilities := highVulnerabilities sm1 + 1\<rparr> else sm1);
               sm3 = (if v_severity d = Medium
                      then sm2\<lparr>mediumVulnerabilities := mediumVulnerabilities sm2 + 1\<rparr> else sm2)
           in (if v_severity d = Low
               then sm3\<lparr>lowVulnerabilities := lowVulnerabilities sm3 + 1\<rparr> else sm3)))"

text \<open>The body of the outer \<open>forEach\<close>: one service.\<close>

definition count_service :: "summary \<Rightarrow> populated_service \<Rightarrow> summary" where
  "count_service sm svc =
     (let sm1 = (if ps_status svc = Secure
                 then sm\<lparr>secureServices := secureServices sm + 1\<rparr> else sm);
          sm2 = (if ps_status svc = Vulnerable
                 then sm1\<lparr>vulnerableServices := vulnerableServices sm1 + 1\<rparr> else sm1);
          sm3 = (if ps_status svc = Outdated
                 then sm2\<lparr>outdatedServices := outdatedServices sm2 + 1\<rparr> else sm2)
      in foldl count_vulnerability sm3 (ps_details svc))"

definition initial_summary :: "nat \<Rightarrow> summary" where
  "initial_summary n =
     \<lparr>totalServices = n, secureServices = 0, vulnerableServices = 0, outdatedServices = 0,
      criticalVulnerabilities = 0, highVulnerabilities = 0, mediumVulnerabilities = 0,
      lowVulnerabilities = 0\<rparr>"

definition compute_summary :: "populated_service list \<Rightarrow> summary" where
  "compute_summary validServices =
     foldl count_service (initial_summary (length validServices)) validServices"

text \<open>\<open>generateRecommendations(summary, services)\<close>; the second argument is never read.\<close>

definition generateRecommendations :: "summary \<Rightarrow> msg list" where
  "generateRecommendations sm =
     (if criticalVulnerabilities sm > 0 then [FixCritical] else []) @
     (if highVulnerabilities sm > 0 then [PlanHigh] else []) @
     (if vulnerableServices sm > 0 then [PrioritizeVulnerable (vulnerableServices sm)] else []) @
     (if outdatedServices sm > 0 then [UpdateOutdated (outdatedServices sm)] else []) @
     [ContinuousMonitoring] @
     (if vulnerableServices sm > 0 \<or> criticalVulnerabilities sm > 0 \<or> highVulnerabilities sm > 0
      then [SecurityTests] else [])"

text \<open>
  \<open>reportDAO.create\<close>: the schema trims the title and requires it, and admits four
  formats; a rejected document makes the DAO throw a plain \<open>Error\<close>, which the error
  middleware answers with 500.
\<close>

definition report_formats :: "string list" where
  "report_formats = [''pdf'', ''html'', ''json'', ''csv'']"

definition reportDAO_create :: "store \<Rightarrow> report \<Rightarrow> store option" where
  "reportDAO_create st r =
     (if trim (r_title r) = [] \<or> r_format r \<notin> set report_formats then None
      else Some (st\<lparr>reports := reports st @ [r\<lparr>r_id := next_oid st, r_title := trim (r_title r)\<rparr>],
                    next_oid := next_oid st + 1\<rparr>))"

text \<open>
  An identifier as a request body carries it: a value that casts to an ObjectId, or a
  value the cast rejects (a string that is not 24 hexadecimal digits, for instance).
\<close>

datatype id_input = ObjectId oid | NotObjectId

text \<open>
  \<open>serviceDAO.findById(id, [populate ...])\<close> on such an identifier. A failed cast is
  Mongoose's \<open>CastError\<close>; \<open>BaseDAO.findById\<close> catches it and throws a plain \<open>Error\<close>
  in its place (\<open>None\<close> here), which the error middleware answers with 500.
\<close>

definition serviceDAO_findById :: "store \<Rightarrow> id_input \<Rightarrow> populated_service option option" where
  "serviceDAO_findById st i =
     (case i of
        NotObjectId \<Rightarrow> None
      | ObjectId d \<Rightarrow> Some (findById_populated st d))"

text \<open>\<open>Promise.all\<close> over the lookups: it rejects when one of them throws.\<close>

fun promise_all :: "'a option list \<Rightarrow> 'a list option" where
  "promise_all [] = Some []"
| "promise_all (None # rest) = None"
| "promise_all (Some x # rest) = map_option ((#) x) (promise_all rest)"

text \<open>The identifiers as the report stores them.\<close>

definition cast_ids :: "id_input list \<Rightarrow> oid list" where
  "cast_ids ids = concat (map (\<lambda>i. case i of ObjectId d \<Rightarrow> [d] | NotObjectId \<Rightarrow> []) ids)"

text \<open>
  \<open>POST /api/generate\<close>. \<open>title\<close> is \<open>None\<close> when the body has none; \<open>serviceIds\<close>
  is \<open>None\<close> when the body has none or it is not an array; \<open>format\<close> defaults to
  \<open>html\<close>. The result is the HTTP status and the store afterwards.
\<close>

definition generate ::
  "store \<Rightarrow> string option \<Rightarrow> id_input list option \<Rightarrow> string option \<Rightarrow> oid \<Rightarrow> time
     \<Rightarrow> nat \<times> store"
where
  "generate st title serviceIds format user now =
     (case title of
        None \<Rightarrow> (400, st)
      | Some t \<Rightarrow>
          if t = [] then (400, st)
          else (case serviceIds of
                  None \<Rightarrow> (400, st)
                | Some ids \<Rightarrow>
                    if length ids = 0 then (400, st)
                    else
                      (case promise_all (map (serviceDAO_findById st) ids) of
                         None \<Rightarrow> (500, st)
                       | Some found \<Rightarrow>
                           (let validServices = map the (filter (\<lambda>s. s \<noteq> None) found)
                            in if length validServices = 0 then (404, st)
                               else
                                 (let sm = compute_summary validServices;
                                      recommendations = generateRecommendations sm
                                  in case reportDAO_create st
                                          \<lparr>r_id = 0, r_title = t, r_services = cast_ids ids,
                                           r_summary = sm,
                                           r_format = (case format of None \<Rightarrow> ''html'' | Some f \<Rightarrow> f),
                                           r_recommendations = recommendations,
                                           r_generatedBy = user, r_generatedAt = now\<rparr> of
                                       None \<Rightarrow> (500, st)
                                     | Some st' \<Rightarrow> (201, st'))))))"

section \<open>Version checker (services/notifier/notificationService.js, second part)\<close>

subsection \<open>JavaScript numbers\<close>

text \<open>
  A JavaScript number is a double: NaN, an infinity or a finite value, which is a
  rational. Negative zero is identified with zero (they compare equal and both are falsy).
\<close>

datatype jsnum = NaN | NegInf | Fin rat | PosInf

text \<open>
  The double nearest to a natural number (ties to the even significand): exact below
  \<open>2^53\<close>, 53 significant bits above, \<open>Infinity\<close> from \<open>2^1024\<close> on.
\<close>

definition to_double :: "nat \<Rightarrow> jsnum" where
  "to_double n =
     (if n < 2 ^ 53 then Fin (of_nat n)
      else
        (let e = floorlog 2 n - 53;
             q = n div 2 ^ e;
             r = n mod 2 ^ e;
             half = 2 ^ (e - 1);
             q' = (if r > half \<or> (r = half \<and> odd q) then q + 1 else q);
             m = q' * 2 ^ e
         in if m \<ge> 2 ^ 1024 then PosInf else Fin (of_nat m)))"

definition is_digit :: "char \<Rightarrow> bool" where
  "is_digit c = (c \<in> set ''0123456789'')"

definition digit_value :: "char \<Rightarrow> nat" where
  "digit_value c = of_char c - 48"

definition decimal_value :: "string \<Rightarrow> nat" where
  "decimal_value s = foldl (\<lambda>a c. 10 * a + digit_value c) 0 s"

text \<open>
  The ASCII characters that occur in some numeric string literal: white space, digits,
  signs, the point, exponent and radix markers, hexadecimal digits and the letters of
  \<open>Infinity\<close>.
\<close>

definition numeric_alphabet :: "char list" where
  "numeric_alphabet =
     [CHR 0x09, CHR 0x0A, CHR 0x0B, CHR 0x0C, CHR 0x0D, CHR 0x20] @
     ''0123456789+-.eExXoObBaAcCdDfFInity''"

definition non_numeric :: "string \<Rightarrow> bool" where
  "non_numeric s = list_ex (\<lambda>c. (of_char c :: nat) < 128 \<and> c \<notin> set numeric_alphabet) s"

text \<open>
  \<open>Number(s)\<close> on a string: 0 on the empty string, the nearest double on a string of
  decimal digits, NaN on a string with an ASCII character that no numeric literal
  contains. On the remaining strings (signs, exponents, radix prefixes, white space,
  \<open>Infinity\<close> and their misspellings) the value is the parameter \<open>other\<close>.
\<close>

definition Number_js :: "(string \<Rightarrow> jsnum) \<Rightarrow> string \<Rightarrow> jsnum" where
  "Number_js other s =
     (if s = [] then Fin 0
      else if list_all is_digit s then to_double (decimal_value s)
      else if non_numeric s then NaN
      else other s)"

text \<open>\<open>a < b\<close> on numbers: false when either is NaN.\<close>

fun js_lt :: "jsnum \<Rightarrow> jsnum \<Rightarrow> bool" where
  "js_lt NaN b = False"
| "js_lt a NaN = False"
| "js_lt PosInf b = False"
| "js_lt a NegInf = False"
| "js_lt NegInf b = True"
| "js_lt a PosInf = True"
| "js_lt (Fin x) (Fin y) = (x < y)"

text \<open>\<open>xs[i] || 0\<close>: 0 when the index is out of range, and when the element is NaN or 0.\<close>

definition part :: "jsnum list \<Rightarrow> nat \<Rightarrow> jsnum" where
  "part xs i = (if i < length xs then (if xs ! i = NaN then Fin 0 else xs ! i) else Fin 0)"

text \<open>\<open>s.split('.')\<close>: never empty; the empty string gives one empty segment.\<close>

fun split_dot :: "string \<Rightarrow> string list" where
  "split_dot [] = [[]]"
| "split_dot (c # cs) =
     (if c = CHR ''.'' then [] # split_dot cs
      else (case split_dot cs of [] \<Rightarrow> [[c]] | p # ps \<Rightarrow> (c # p) # ps))"

text \<open>\<open>parts.join('.')\<close>.\<close>

fun join_dot :: "string list \<Rightarrow> string" where
  "join_dot [] = []"
| "join_dot [p] = p"
| "join_dot (p # ps) = p @ ''.'' @ join_dot ps"

subsection \<open>isNewerVersion\<close>

text \<open>The \<open>for\<close> loop of \<open>isNewerVersion\<close>, from index \<open>i\<close>.\<close>

function compare_from :: "jsnum list \<Rightarrow> jsnum list \<Rightarrow> nat \<Rightarrow> bool" where
  "compare_from current latest i =
     (if i < max (length current) (length latest) then
        (let currentPart = part current i;
             latestPart = part latest i
         in if js_lt currentPart latestPart then True
            else if js_lt latestPart currentPart then False
            else compare_from current latest (i + 1))
      else False)"
  by pat_completeness auto
termination
  by (relation "measure (\<lambda>(current, latest, i). max (length current) (length latest) - i)") auto

definition isNewerVersion :: "(string \<Rightarrow> jsnum) \<Rightarrow> string \<Rightarrow> string \<Rightarrow> bool" where
  "isNewerVersion other currentVersion latestVersion =
     (let current = map (Number_js other) (split_dot currentVersion);
          latest = map (Number_js other) (split_dot latestVersion)
      in compare_from current latest 0)"

subsection \<open>simulateVersionCheck and incrementVersion\<close>

text \<open>
  \<open>incrementVersion(version)\<close>. The parameter \<open>succ\<close> is the string
  \<open>(parseInt(p) + 1).toString()\<close> of a part \<open>p\<close>.
\<close>

definition incrementVersion :: "(string \<Rightarrow> string) \<Rightarrow> string \<Rightarrow> string" where
  "incrementVersion succ version =
     (let parts = split_dot version
      in if length parts < 3 then version
         else join_dot (parts[2 := succ (parts ! 2)]))"

definition versions :: "(string \<times> string) list" where
  "versions =
     [(''Node.js'', ''18.15.0''), (''Express'', ''4.18.2''), (''MongoDB'', ''6.0.5''),
      (''React'', ''18.2.0''), (''Angular'', ''15.2.0''), (''Vue.js'', ''3.2.47''),
      (''PostgreSQL'', ''15.2''), (''MySQL'', ''8.0.32''), (''Redis'', ''7.0.10''),
      (''Docker'', ''23.0.1''), (''Kubernetes'', ''1.26.3'')]"

text \<open>
  The property names every object literal inherits: \<open>versions[name]\<close> is a function or
  an object for them, which is truthy and is not a string.
\<close>

definition inherited_keys :: "string list" where
  "inherited_keys =
     [''constructor'', ''hasOwnProperty'', ''isPrototypeOf'', ''propertyIsEnumerable'',
      ''toLocaleString'', ''toString'', ''valueOf'', ''__proto__'', ''__defineGetter__'',
      ''__defineSetter__'', ''__lookupGetter__'', ''__lookupSetter__'']"

datatype jsval = JString string | JObject

text \<open>
  \<open>simulateVersionCheck(name, type)\<close>: \<open>versions[name] || incrementVersion(name)\<close>.
  It is the component's name that is passed to \<open>incrementVersion\<close>.
\<close>

definition simulateVersionCheck :: "(string \<Rightarrow> string) \<Rightarrow> string \<Rightarrow> component_type \<Rightarrow> jsval" where
  "simulateVersionCheck succ name type =
     (case map_of versions name of
        Some v \<Rightarrow> JString v
      | None \<Rightarrow> if name \<in> set inherited_keys then JObject
                else JString (incrementVersion succ name))"

subsection \<open>Handlers\<close>

text \<open>
  \<open>notificationDAO.create\<close>: the schema trims and requires title and message; a
  rejected document makes the DAO throw (\<open>None\<close>). \<open>read\<close> defaults to false.
\<close>

definition msg_trim :: "msg \<Rightarrow> msg" where
  "msg_trim m = (case m of Plain s \<Rightarrow> Plain (trim s) | _ \<Rightarrow> m)"

definition notificationDAO_create ::
  "store \<Rightarrow> msg \<Rightarrow> msg \<Rightarrow> notification_type \<Rightarrow> severity \<Rightarrow> oid option \<Rightarrow> oid list \<Rightarrow> time
     \<Rightarrow> store option"
where
  "notificationDAO_create st title message type sev svc recipients now =
     (if msg_trim title = Plain [] \<or> msg_trim message = Plain [] then None
      else Some (st\<lparr>notifications := notifications st @
                     [\<lparr>n_id = next_oid st, n_title = msg_trim title, n_message = msg_trim message,
                       n_type = type, n_severity = sev, n_service = svc, n_read = False,
                       n_recipients = recipients, n_createdAt = now, n_updatedAt = now\<rparr>],
                    next_oid := next_oid st + 1\<rparr>))"

text \<open>\<open>serviceDAO.update(id, {status})\<close>.\<close>

definition set_status :: "store \<Rightarrow> oid \<Rightarrow> service_status \<Rightarrow> store" where
  "set_status st sid status =
     st\<lparr>services := update_first (\<lambda>s. s_id s = sid) (\<lambda>s. s\<lparr>s_status := status\<rparr>) (services st)\<rparr>"

text \<open>\<open>componentDAO.update(id, {latestVersion, updateAvailable, lastChecked})\<close>.\<close>

definition record_check :: "store \<Rightarrow> oid \<Rightarrow> string \<Rightarrow> bool \<Rightarrow> time \<Rightarrow> store" where
  "record_check st cid latestVersion updateAvailable now =
     st\<lparr>components :=
          update_first (\<lambda>c. c_id c = cid)
            (\<lambda>c. c\<lparr>c_latestVersion := Some latestVersion, c_updateAvailable := updateAvailable,
                   c_lastChecked := now\<rparr>)
            (components st)\<rparr>"

text \<open>
  The loop of \<open>POST /api/check-updates\<close> over the services found before it starts: a
  notification for each, and the status of those read as \<open>secure\<close> set to
  \<open>outdated\<close>. A failure of \<open>notificationDAO.create\<close> ends the request (500) and
  leaves what was written before it.
\<close>

fun notify_or_keep :: "store \<Rightarrow> msg \<Rightarrow> time \<Rightarrow> service list \<Rightarrow> nat \<times> store" where
  "notify_or_keep st message now [] = (200, st)"
| "notify_or_keep st message now (svc # rest) =
     (case notificationDAO_create st UpdateTitle message NUpdate Info (Some (s_id svc)) [] now of
        None \<Rightarrow> (500, st)
      | Some st1 \<Rightarrow>
          notify_or_keep
            (if s_status svc = Secure then set_status st1 (s_id svc) Outdated else st1)
            message now rest)"

text \<open>
  \<open>POST /api/check-updates\<close>, for a \<open>componentId\<close> that is a well-formed ObjectId
  (\<open>None\<close> when the body has none). A \<open>latestVersion\<close> that is not a string makes
  \<open>latestVersion.split\<close> throw before anything is written (500).
\<close>

definition check_updates ::
  "(string \<Rightarrow> jsnum) \<Rightarrow> (string \<Rightarrow> string) \<Rightarrow> store \<Rightarrow> oid option \<Rightarrow> time \<Rightarrow> nat \<times> store"
where
  "check_updates other succ st componentId now =
     (case componentId of
        None \<Rightarrow> (400, st)
      | Some cid \<Rightarrow>
          (case findOne (\<lambda>c. c_id c = cid) (components st) of
             None \<Rightarrow> (404, st)
           | Some component \<Rightarrow>
               (case simulateVersionCheck succ (c_name component) (c_type component) of
                  JObject \<Rightarrow> (500, st)
                | JString latestVersion \<Rightarrow>
                    (let updateAvailable = isNewerVersion other (c_version component) latestVersion;
                         st1 = record_check st cid latestVersion updateAvailable now
                     in if updateAvailable then
                          notify_or_keep st1
                            (UpdateMessage latestVersion (c_name component) (c_version component))
                            now
                            (filter (\<lambda>s. cid \<in> set (s_components s)) (services st1))
                        else (200, st1)))))"

text \<open>The loop of \<open>POST /api/check-all-updates\<close> over the components found before it.\<close>

fun check_each ::
  "(string \<Rightarrow> jsnum) \<Rightarrow> (string \<Rightarrow> string) \<Rightarrow> time \<Rightarrow> store \<Rightarrow> component list \<Rightarrow> nat \<times> store"
where
  "check_each other succ now st [] = (200, st)"
| "check_each other succ now st (component # rest) =
     (case simulateVersionCheck succ (c_name component) (c_type component) of
        JObject \<Rightarrow> (500, st)
      | JString latestVersion \<Rightarrow>
          (let updateAvailable = isNewerVersion other (c_version component) latestVersion
           in check_each other succ now
                (record_check st (c_id component) latestVersion updateAvailable now) rest))"

definition check_all_updates ::
  "(string \<Rightarrow> jsnum) \<Rightarrow> (string \<Rightarrow> string) \<Rightarrow> store \<Rightarrow> time \<Rightarrow> nat \<times> store"
where
  "check_all_updates other succ st now = check_each other succ now st (components st)"

section \<open>Notifier (services/notifier/notificationService.js, first part)\<close>

definition notification_type_of :: "string \<Rightarrow> notification_type option" where
  "notification_type_of s =
     map_of [(''vulnerability'', NVulnerability), (''update'', NUpdate), (''report'', NReport),
             (''system'', NSystem), (''user'', NUser)] s"

definition severity_of :: "string \<Rightarrow> severity option" where
  "severity_of s =
     map_of [(''critical'', Critical), (''high'', High), (''medium'', Medium), (''low'', Low),
             (''info'', Info)] s"

text \<open>
  \<open>POST /api/notifications\<close>. An absent or empty field is falsy; a type or severity
  outside the schema's enum is rejected by \<open>notificationDAO.create\<close> (500).
\<close>

definition falsy :: "string option \<Rightarrow> bool" where
  "falsy v = (v = None \<or> v = Some [])"

definition post_notification ::
  "store \<Rightarrow> string option \<Rightarrow> string option \<Rightarrow> string option \<Rightarrow> string option \<Rightarrow> oid option
     \<Rightarrow> oid list option \<Rightarrow> time \<Rightarrow> nat \<times> store"
where
  "post_notification st title message type sev svc recipients now =
     (if falsy title \<or> falsy message \<or> falsy type then (400, st)
      else
        (case (notification_type_of (the type),
               severity_of (if falsy sev then ''info'' else the sev)) of
           (Some ty, Some sv) \<Rightarrow>
             (case notificationDAO_create st (Plain (the title)) (Plain (the message)) ty sv svc
                     (case recipients of None \<Rightarrow> [] | Some rs \<Rightarrow> rs) now of
                None \<Rightarrow> (500, st)
              | Some st' \<Rightarrow> (201, st'))
         | _ \<Rightarrow> (500, st)))"

text \<open>
  \<open>NotificationDAO.markAllAsRead(userId)\<close>: \<open>updateMany\<close> with the filter
  \<open>{recipients: userId, read: false}\<close>; the result carries \<open>modifiedCount\<close>.
\<close>

definition unread_for :: "oid \<Rightarrow> notification \<Rightarrow> bool" where
  "unread_for userId n = (userId \<in> set (n_recipients n) \<and> n_read n = False)"

definition markAllAsRead :: "store \<Rightarrow> oid \<Rightarrow> nat \<times> store" where
  "markAllAsRead st userId =
     (length (filter (unread_for userId) (notifications st)),
      st\<lparr>notifications := updateMany (unread_for userId) (\<lambda>n. n\<lparr>n_read := True\<rparr>) (notifications st)\<rparr>)"

section \<open>Stack scanner (services/stack-scanner/stackScannerService.js)\<close>

definition detectedComponents :: "(string \<times> string \<times> component_type) list" where
  "detectedComponents =
     [(''Node.js'', ''16.14.0'', Language), (''Express'', ''4.17.3'', Framework),
      (''MongoDB'', ''5.0.6'', Database)]"

text \<open>
  \<open>componentDAO.create({name, version, type})\<close> with the schema's defaults. The names
  and versions the scanner supplies are non-empty and have no surrounding white space, so
  the schema accepts them as they are.
\<close>

definition componentDAO_create ::
  "store \<Rightarrow> string \<Rightarrow> string \<Rightarrow> component_type \<Rightarrow> time \<Rightarrow> component \<times> store"
where
  "componentDAO_create st name version type now =
     (let component = \<lparr>c_id = next_oid st, c_name = name, c_version = version, c_type = type,
                       c_latestVersion = None, c_updateAvailable = False, c_lastChecked = now\<rparr>
      in (component, st\<lparr>components := components st @ [component], next_oid := next_oid st + 1\<rparr>))"

text \<open>\<open>ServiceDAO.addComponent\<close>: \<open>$addToSet\<close> on the service's \<open>components\<close>.\<close>

definition addToSet :: "'a \<Rightarrow> 'a list \<Rightarrow> 'a list" where
  "addToSet x xs = (if x \<in> set xs then xs else xs @ [x])"

definition addComponent :: "store \<Rightarrow> oid \<Rightarrow> oid \<Rightarrow> store" where
  "addComponent st serviceId componentId =
     st\<lparr>services :=
          update_first (\<lambda>s. s_id s = serviceId)
            (\<lambda>s. s\<lparr>s_components := addToSet componentId (s_components s)\<rparr>) (services st)\<rparr>"

text \<open>
  The body of the loop of \<open>POST /api/scan\<close>: find the component by name and version,
  create it when absent, add it to the service.
\<close>

definition save_component ::
  "store \<Rightarrow> oid \<Rightarrow> time \<Rightarrow> string \<times> string \<times> component_type \<Rightarrow> store"
where
  "save_component st serviceId now detected =
     (case detected of
        (name, version, type) \<Rightarrow>
          (case (case findOne (\<lambda>c. c_name c = name \<and> c_version c = version) (components st) of
                   Some c \<Rightarrow> (c, st)
                 | None \<Rightarrow> componentDAO_create st name version type now) of
             (component, st1) \<Rightarrow> addComponent st1 serviceId (c_id component)))"

fun save_components ::
  "store \<Rightarrow> oid \<Rightarrow> time \<Rightarrow> (string \<times> string \<times> component_type) list \<Rightarrow> store"
where
  "save_components st serviceId now [] = st"
| "save_components st serviceId now (detected # rest) =
     save_components (save_component st serviceId now detected) serviceId now rest"

text \<open>\<open>serviceDAO.update(serviceId, {lastScan: Date.now(), status: 'secure'})\<close>.\<close>

definition mark_scanned :: "store \<Rightarrow> oid \<Rightarrow> time \<Rightarrow> store" where
  "mark_scanned st sid now =
     st\<lparr>services := update_first (\<lambda>s. s_id s = sid)
                        (\<lambda>s. s\<lparr>s_lastScan := Some now, s_status := Secure\<rparr>) (services st)\<rparr>"

text \<open>
  \<open>POST /api/scan\<close>, after the role check, for a \<open>serviceId\<close> that is a well-formed
  ObjectId (\<open>None\<close> when the body has none).
\<close>

definition scan :: "store \<Rightarrow> oid option \<Rightarrow> time \<Rightarrow> nat \<times> store" where
  "scan st serviceId now =
     (case serviceId of
        None \<Rightarrow> (400, st)
      | Some sid \<Rightarrow>
          (case findOne (\<lambda>s. s_id s = sid) (services st) of
             None \<Rightarrow> (404, st)
           | Some service \<Rightarrow>
               (200, mark_scanned (save_components st sid now detectedComponents) sid now)))"

section \<open>Notions used to state the properties\<close>

subsection \<open>Report summary\<close>

definition has_severity :: "severity \<Rightarrow> vulnerability option \<Rightarrow> bool" where
  "has_severity sev d = (case d of None \<Rightarrow> False | Some v \<Rightarrow> v_severity v = sev)"

text \<open>The associations of one service whose vulnerability resolves and has the severity.\<close>

definition severity_count :: "severity \<Rightarrow> populated_service \<Rightarrow> nat" where
  "severity_count sev svc = length (filter (has_severity sev) (ps_details svc))"

subsection \<open>Version tuples\<close>

text \<open>
  The comparison the specification describes: the tuples padded with zeros to the same
  length, compared lexicographically.
\<close>

definition pad_zero :: "nat \<Rightarrow> nat list \<Rightarrow> nat list" where
  "pad_zero n xs = xs @ replicate (n - length xs) 0"

definition tuple_newer :: "nat list \<Rightarrow> nat list \<Rightarrow> bool" where
  "tuple_newer current latest =
     (let n = max (length current) (length latest)
      in pad_zero n current < pad_zero n latest)"

definition version_tuple :: "string \<Rightarrow> nat list" where
  "version_tuple v = map decimal_value (split_dot v)"

text \<open>A segment of decimal digits whose value a double holds exactly.\<close>

definition numeric_segment :: "string \<Rightarrow> bool" where
  "numeric_segment s = (s \<noteq> [] \<and> list_all is_digit s \<and> decimal_value s \<le> 2 ^ 53)"

text \<open>A segment read as its value when it is made of digits, and as 0 otherwise.\<close>

definition segment_value :: "string \<Rightarrow> nat" where
  "segment_value s = (if list_all is_digit s then decimal_value s else 0)"

definition readable_segment :: "string \<Rightarrow> bool" where
  "readable_segment s = ((list_all is_digit s \<and> decimal_value s \<le> 2 ^ 53) \<or> non_numeric s)"

subsection \<open>Scanned components\<close>

definition component_key :: "component \<Rightarrow> string \<times> string" where
  "component_key c = (c_name c, c_version c)"

definition distinct_keys :: "store \<Rightarrow> bool" where
  "distinct_keys st = distinct (map component_key (components st))"

definition distinct_refs :: "store \<Rightarrow> bool" where
  "distinct_refs st = list_all (\<lambda>s. distinct (s_components s)) (services st)"

text \<open>The service, when it exists, references the component.\<close>

definition linked :: "store \<Rightarrow> oid \<Rightarrow> oid \<Rightarrow> bool" where
  "linked st sid i =
     (case findOne (\<lambda>s. s_id s = sid) (services st) of
        None \<Rightarrow> True
      | Some s \<Rightarrow> i \<in> set (s_components s))"

text \<open>The detected component is stored and the service references the stored document.\<close>

definition saved :: "store \<Rightarrow> oid \<Rightarrow> string \<times> string \<times> component_type \<Rightarrow> bool" where
  "saved st sid detected =
     (case detected of
        (name, version, type) \<Rightarrow>
          (case findOne (\<lambda>c. c_name c = name \<and> c_version c = version) (components st) of
             None \<Rightarrow> False
           | Some c \<Rightarrow> linked st sid (c_id c)))"

subsection \<open>Example stores\<close>

definition empty_store :: store where
  "empty_store = \<lparr>components = [], vulnerabilities = [], services = [], notifications = [],
                   reports = [], next_oid = 0\<rparr>"

text \<open>One service, never scanned.\<close>

definition orders_store :: store where
  "orders_store =
     \<lparr>components = [], vulnerabilities = [],
      services = [\<lparr>s_id = 1, s_name = ''orders-api'', s_components = [], s_vulnerabilities = [],
                   s_lastScan = None, s_status = Unknown\<rparr>],
      notifications = [], reports = [], next_oid = 2\<rparr>"

text \<open>The same store after \<open>POST /api/scan\<close> at time 10.\<close>

definition scanned_store :: store where
  "scanned_store =
     \<lparr>components =
        [\<lparr>c_id = 2, c_name = ''Node.js'', c_version = ''16.14.0'', c_type = Language,
          c_latestVersion = None, c_updateAvailable = False, c_lastChecked = 10\<rparr>,
         \<lparr>c_id = 3, c_name = ''Express'', c_version = ''4.17.3'', c_type = Framework,
          c_latestVersion = None, c_updateAvailable = False, c_lastChecked = 10\<rparr>,
         \<lparr>c_id = 4, c_name = ''MongoDB'', c_version = ''5.0.6'', c_type = Database,
          c_latestVersion = None, c_updateAvailable = False, c_lastChecked = 10\<rparr>],
      vulnerabilities = [],
      services = [\<lparr>s_id = 1, s_name = ''orders-api'', s_components = [2, 3, 4],
                   s_vulnerabilities = [], s_lastScan = Some 10, s_status = Secure\<rparr>],
      notifications = [], reports = [], next_oid = 5\<rparr>"

subsection \<open>Version checks\<close>

text \<open>The notification check-updates writes for a service.\<close>

definition update_notification :: "msg \<Rightarrow> time \<Rightarrow> oid \<Rightarrow> oid \<Rightarrow> notification" where
  "update_notification message now i sid =
     \<lparr>n_id = i, n_title = UpdateTitle, n_message = message, n_type = NUpdate, n_severity = Info,
      n_service = Some sid, n_read = False, n_recipients = [], n_createdAt = now,
      n_updatedAt = now\<rparr>"

definition mark_outdated :: "oid set \<Rightarrow> service list \<Rightarrow> service list" where
  "mark_outdated T xs = map (\<lambda>s. if s_id s \<in> T then s\<lparr>s_status := Outdated\<rparr> else s) xs"

definition newer_available ::
  "(string \<Rightarrow> jsnum) \<Rightarrow> (string \<Rightarrow> string) \<Rightarrow> store \<Rightarrow> oid \<Rightarrow> bool"
where
  "newer_available other succ st cid =
     (case findOne (\<lambda>c. c_id c = cid) (components st) of
        None \<Rightarrow> False
      | Some c \<Rightarrow>
          (case simulateVersionCheck succ (c_name c) (c_type c) of
             JObject \<Rightarrow> False
           | JString latest \<Rightarrow> isNewerVersion other (c_version c) latest))"

definition latest_of :: "(string \<Rightarrow> string) \<Rightarrow> component \<Rightarrow> string" where
  "latest_of succ c =
     (case simulateVersionCheck succ (c_name c) (c_type c) of JObject \<Rightarrow> [] | JString l \<Rightarrow> l)"

subsection \<open>The status the specification prescribes\<close>

text \<open>
  Invariants I1 to I3 of the specification, read on the stored associations:
  \<open>vulnerable\<close> when an associated open vulnerability has severity medium or above,
  else \<open>outdated\<close> when an associated component has an update available, else
  \<open>secure\<close>, and \<open>unknown\<close> before any scan.
\<close>

definition severity_rank :: "severity \<Rightarrow> nat" where
  "severity_rank sev = (case sev of Critical \<Rightarrow> 4 | High \<Rightarrow> 3 | Medium \<Rightarrow> 2 | Low \<Rightarrow> 1 | Info \<Rightarrow> 0)"

definition blocking_vulnerability :: "store \<Rightarrow> vuln_ref \<Rightarrow> bool" where
  "blocking_vulnerability st r =
     (case vr_details r of
        None \<Rightarrow> False
      | Some d \<Rightarrow>
          (case findOne (\<lambda>v. v_id v = d) (vulnerabilities st) of
             None \<Rightarrow> False
           | Some v \<Rightarrow> v_status v = Open \<and> severity_rank (v_severity v) \<ge> severity_rank Medium))"

definition update_pending :: "store \<Rightarrow> oid \<Rightarrow> bool" where
  "update_pending st i =
     (case findOne (\<lambda>c. c_id c = i) (components st) of
        None \<Rightarrow> False
      | Some c \<Rightarrow> c_updateAvailable c)"

definition spec_status :: "store \<Rightarrow> service \<Rightarrow> service_status" where
  "spec_status st s =
     (if list_ex (blocking_vulnerability st) (s_vulnerabilities s) then Vulnerable
      else if list_ex (update_pending st) (s_components s) then Outdated
      else if s_lastScan s = None then Unknown
      else Secure)"

definition checked_store :: store where
  "checked_store =
     \<lparr>components =
        [\<lparr>c_id = 2, c_name = ''Node.js'', c_version = ''16.14.0'', c_type = Language,
          c_latestVersion = Some ''18.15.0'', c_updateAvailable = True, c_lastChecked = 20\<rparr>,
         \<lparr>c_id = 3, c_name = ''Express'', c_version = ''4.17.3'', c_type = Framework,
          c_latestVersion = None, c_updateAvailable = False, c_lastChecked = 10\<rparr>,
         \<lparr>c_id = 4, c_name = ''MongoDB'', c_version = ''5.0.6'', c_type = Database,
          c_latestVersion = None, c_updateAvailable = False, c_lastChecked = 10\<rparr>],
      vulnerabilities = [],
      services = [\<lparr>s_id = 1, s_name = ''orders-api'', s_components = [2, 3, 4],
                   s_vulnerabilities = [], s_lastScan = Some 10, s_status = Outdated\<rparr>],
      notifications =
        [\<lparr>n_id = 5, n_title = UpdateTitle,
          n_message = UpdateMessage ''18.15.0'' ''Node.js'' ''16.14.0'', n_type = NUpdate,
          n_severity = Info, n_service = Some 1, n_read = False, n_recipients = [],
          n_createdAt = 20, n_updatedAt = 20\<rparr>],
      reports = [], next_oid = 6\<rparr>"

text \<open>Three notifications: for user 7 unread, for user 8 unread, for user 7 read.\<close>

definition inbox_store :: store where
  "inbox_store =
     \<lparr>components = [], vulnerabilities = [], services = [],
      notifications =
        [\<lparr>n_id = 1, n_title = Plain ''a'', n_message = Plain ''x'', n_type = NSystem,
          n_severity = Info, n_service = None, n_read = False, n_recipients = [7],
          n_createdAt = 1, n_updatedAt = 1\<rparr>,
         \<lparr>n_id = 2, n_title = Plain ''b'', n_message = Plain ''y'', n_type = NSystem,
          n_severity = Info, n_service = None, n_read = False, n_recipients = [8],
          n_createdAt = 2, n_updatedAt = 2\<rparr>,
         \<lparr>n_id = 3, n_title = Plain ''c'', n_message = Plain ''z'', n_type = NUser,
          n_severity = Low, n_service = None, n_read = True, n_recipients = [7, 8],
          n_createdAt = 3, n_updatedAt = 3\<rparr>],
      reports = [], next_oid = 4\<rparr>"

section \<open>Properties of the report generator\<close>

lemma count_vulnerability_fields:
  "totalServices (count_vulnerability sm d) = totalServices sm"
  "secureServices (count_vulnerability sm d) = secureServices sm"
  "vulnerableServices (count_vulnerability sm d) = vulnerableServices sm"
  "outdatedServices (count_vulnerability sm d) = outdatedServices sm"
  "criticalVulnerabilities (count_vulnerability sm d) =
     criticalVulnerabilities sm + (if has_severity Critical d then 1 else 0)"
  "highVulnerabilities (count_vulnerability sm d) =
     highVulnerabilities sm + (if has_severity High d then 1 else 0)"
  "mediumVulnerabilities (count_vulnerability sm d) =
     mediumVulnerabilities sm + (if has_severity Medium d then 1 else 0)"
  "lowVulnerabilities (count_vulnerability sm d) =
     lowVulnerabilities sm + (if has_severity Low d then 1 else 0)"
  by (simp_all add: count_vulnerability_def has_severity_def Let_def split: option.split)

lemma foldl_count_vulnerability:
  "totalServices (foldl count_vulnerability sm ds) = totalServices sm"
  "secureServices (foldl count_vulnerability sm ds) = secureServices sm"
  "vulnerableServices (foldl count_vulnerability sm ds) = vulnerableServices sm"
  "outdatedServices (foldl count_vulnerability sm ds) = outdatedServices sm"
  "criticalVulnerabilities (foldl count_vulnerability sm ds) =
     criticalVulnerabilities sm + length (filter (has_severity Critical) ds)"
  "highVulnerabilities (foldl count_vulnerability sm ds) =
     highVulnerabilities sm + length (filter (has_severity High) ds)"
  "mediumVulnerabilities (foldl count_vulnerability sm ds) =
     mediumVulnerabilities sm + length (filter (has_severity Medium) ds)"
  "lowVulnerabilities (foldl count_vulnerability sm ds) =
     lowVulnerabilities sm + length (filter (has_severity Low) ds)"
  by (induction ds arbitrary: sm; simp add: count_vulnerability_fields)+

lemma count_service_fields:
  "totalServices (count_service sm s) = totalServices sm"
  "secureServices (count_service sm s) = secureServices sm + (if ps_status s = Secure then 1 else 0)"
  "vulnerableServices (count_service sm s) =
     vulnerableServices sm + (if ps_status s = Vulnerable then 1 else 0)"
  "outdatedServices (count_service sm s) =
     outdatedServices sm + (if ps_status s = Outdated then 1 else 0)"
  "criticalVulnerabilities (count_service sm s) =
     criticalVulnerabilities sm + severity_count Critical s"
  "highVulnerabilities (count_service sm s) = highVulnerabilities sm + severity_count High s"
  "mediumVulnerabilities (count_service sm s) = mediumVulnerabilities sm + severity_count Medium s"
  "lowVulnerabilities (count_service sm s) = lowVulnerabilities sm + severity_count Low s"
  by (simp_all add: count_service_def Let_def foldl_count_vulnerability severity_count_def)

lemma foldl_count_service:
  "totalServices (foldl count_service sm vs) = totalServices sm"
  "secureServices (foldl count_service sm vs) =
     secureServices sm + length (filter (\<lambda>s. ps_status s = Secure) vs)"
  "vulnerableServices (foldl count_service sm vs) =
     vulnerableServices sm + length (filter (\<lambda>s. ps_status s = Vulnerable) vs)"
  "outdatedServices (foldl count_service sm vs) =
     outdatedServices sm + length (filter (\<lambda>s. ps_status s = Outdated) vs)"
  "criticalVulnerabilities (foldl count_service sm vs) =
     criticalVulnerabilities sm + sum_list (map (severity_count Critical) vs)"
  "highVulnerabilities (foldl count_service sm vs) =
     highVulnerabilities sm + sum_list (map (severity_count High) vs)"
  "mediumVulnerabilities (foldl count_service sm vs) =
     mediumVulnerabilities sm + sum_list (map (severity_count Medium) vs)"
  "lowVulnerabilities (foldl count_service sm vs) =
     lowVulnerabilities sm + sum_list (map (severity_count Low) vs)"
  by (induction vs arbitrary: sm; simp add: count_service_fields)+

lemma compute_summary_counts:
  "compute_summary vs =
     \<lparr>totalServices = length vs,
      secureServices = length (filter (\<lambda>s. ps_status s = Secure) vs),
      vulnerableServices = length (filter (\<lambda>s. ps_status s = Vulnerable) vs),
      outdatedServices = length (filter (\<lambda>s. ps_status s = Outdated) vs),
      criticalVulnerabilities = sum_list (map (severity_count Critical) vs),
      highVulnerabilities = sum_list (map (severity_count High) vs),
      mediumVulnerabilities = sum_list (map (severity_count Medium) vs),
      lowVulnerabilities = sum_list (map (severity_count Low) vs)\<rparr>"
  by (simp add: compute_summary_def foldl_count_service initial_summary_def)

text \<open>
  C7. For every list of resolved services the summary counts each service of the list
  once under its status, and counts the vulnerabilities by severity over the
  service-vulnerability associations whose vulnerability resolves, service by service:
  a vulnerability that two services reference counts twice. For a vulnerable service
  with two critical vulnerabilities and a secure service, \<open>criticalVulnerabilities\<close> is 2
  and \<open>vulnerableServices\<close> is 1.
\<close>

theorem summary_counts:
  "compute_summary vs =
     \<lparr>totalServices = length vs,
      secureServices = length (filter (\<lambda>s. ps_status s = Secure) vs),
      vulnerableServices = length (filter (\<lambda>s. ps_status s = Vulnerable) vs),
      outdatedServices = length (filter (\<lambda>s. ps_status s = Outdated) vs),
      criticalVulnerabilities = sum_list (map (severity_count Critical) vs),
      highVulnerabilities = sum_list (map (severity_count High) vs),
      mediumVulnerabilities = sum_list (map (severity_count Medium) vs),
      lowVulnerabilities = sum_list (map (severity_count Low) vs)\<rparr> \<and>
   criticalVulnerabilities
     (compute_summary
        [\<lparr>ps_id = 1, ps_status = Vulnerable,
          ps_details = [Some \<lparr>v_id = 7, v_severity = Critical, v_status = Open\<rparr>,
                        Some \<lparr>v_id = 8, v_severity = Critical, v_status = Open\<rparr>]\<rparr>,
         \<lparr>ps_id = 2, ps_status = Secure, ps_details = []\<rparr>]) = 2 \<and>
   vulnerableServices
     (compute_summary
        [\<lparr>ps_id = 1, ps_status = Vulnerable,
          ps_details = [Some \<lparr>v_id = 7, v_severity = Critical, v_status = Open\<rparr>,
                        Some \<lparr>v_id = 8, v_severity = Critical, v_status = Open\<rparr>]\<rparr>,
         \<lparr>ps_id = 2, ps_status = Secure, ps_details = []\<rparr>]) = 1 \<and>
   highVulnerabilities
     (compute_summary
        [\<lparr>ps_id = 1, ps_status = Vulnerable,
          ps_details = [Some \<lparr>v_id = 7, v_severity = High, v_status = Open\<rparr>]\<rparr>,
         \<lparr>ps_id = 2, ps_status = Vulnerable,
          ps_details = [Some \<lparr>v_id = 7, v_severity = High, v_status = Open\<rparr>]\<rparr>]) = 2"
  by (simp add: compute_summary_counts severity_count_def has_severity_def)

text \<open>
  C9. The recommendations are a function of four counters of the summary, listed in one
  fixed order: two summaries that agree on the counters give the same list, the list is
  a subsequence of the six rules in their order, and when \<open>criticalVulnerabilities\<close> is
  positive its first entry is the fix-immediately recommendation.
\<close>

theorem recommendations_fixed_order:
  "(criticalVulnerabilities a = criticalVulnerabilities b \<and>
    highVulnerabilities a = highVulnerabilities b \<and>
    vulnerableServices a = vulnerableServices b \<and>
    outdatedServices a = outdatedServices b
      \<longrightarrow> generateRecommendations a = generateRecommendations b) \<and>
   (criticalVulnerabilities a > 0 \<longrightarrow> take 1 (generateRecommendations a) = [FixCritical]) \<and>
   subseq (generateRecommendations a)
     [FixCritical, PlanHigh, PrioritizeVulnerable (vulnerableServices a),
      UpdateOutdated (outdatedServices a), ContinuousMonitoring, SecurityTests]"
  by (simp add: generateRecommendations_def)

theorem recommendations_fixed_order_witness:
  "criticalVulnerabilities (compute_summary
       [\<lparr>ps_id = 1, ps_status = Vulnerable,
         ps_details = [Some \<lparr>v_id = 7, v_severity = Critical, v_status = Open\<rparr>]\<rparr>]) > 0 \<and>
   take 1 (generateRecommendations (compute_summary
       [\<lparr>ps_id = 1, ps_status = Vulnerable,
         ps_details = [Some \<lparr>v_id = 7, v_severity = Critical, v_status = Open\<rparr>]\<rparr>]))
     = [FixCritical] \<and>
   generateRecommendations (compute_summary
       [\<lparr>ps_id = 1, ps_status = Vulnerable,
         ps_details = [Some \<lparr>v_id = 7, v_severity = Critical, v_status = Open\<rparr>]\<rparr>])
     = generateRecommendations (initial_summary 5
         \<lparr>criticalVulnerabilities := 1, vulnerableServices := 1\<rparr>)"
proof -
  let ?a = "compute_summary
       [\<lparr>ps_id = 1, ps_status = Vulnerable,
         ps_details = [Some \<lparr>v_id = 7, v_severity = Critical, v_status = Open\<rparr>]\<rparr>]"
  let ?b = "initial_summary 5 \<lparr>criticalVulnerabilities := 1, vulnerableServices := 1\<rparr>"
  have c: "criticalVulnerabilities ?a > 0"
    by (simp add: compute_summary_counts severity_count_def has_severity_def)
  have e: "criticalVulnerabilities ?a = criticalVulnerabilities ?b \<and>
           highVulnerabilities ?a = highVulnerabilities ?b \<and>
           vulnerableServices ?a = vulnerableServices ?b \<and>
           outdatedServices ?a = outdatedServices ?b"
    by (simp add: compute_summary_counts severity_count_def has_severity_def initial_summary_def)
  show ?thesis
    using c e recommendations_fixed_order[of ?a ?b] by blast
qed

lemma promise_all_unresolved:
  assumes "\<forall>i \<in> set ids. \<exists>d. i = ObjectId d \<and> findOne (\<lambda>s. s_id s = d) (services st) = None"
  shows "promise_all (map (serviceDAO_findById st) ids) = Some (map (\<lambda>i. None) ids)"
  using assms
  by (induction ids) (auto simp: serviceDAO_findById_def findById_populated_def)

lemma promise_all_rejected:
  "NotObjectId \<in> set ids \<Longrightarrow> promise_all (map (serviceDAO_findById st) ids) = None"
proof (induction ids)
  case Nil
  then show ?case by simp
next
  case (Cons i ids)
  show ?case
  proof (cases i)
    case NotObjectId
    then show ?thesis by (simp add: serviceDAO_findById_def)
  next
    case (ObjectId d)
    then show ?thesis using Cons by (simp add: serviceDAO_findById_def)
  qed
qed

lemma generate_unresolved:
  assumes "title = Some t" "t \<noteq> []" "ids \<noteq> []"
    and "\<forall>i \<in> set ids. \<exists>d. i = ObjectId d \<and> findOne (\<lambda>s. s_id s = d) (services st) = None"
  shows "generate st title (Some ids) format user now = (404, st)"
proof -
  have "filter (\<lambda>s. s \<noteq> None) (map (\<lambda>i. None :: populated_service option) ids) = []"
    by (induction ids) simp_all
  then show ?thesis
    using assms(1-3) promise_all_unresolved[OF assms(4)] by (simp add: generate_def Let_def)
qed

lemma generate_cast_failure:
  assumes "title = Some t" "t \<noteq> []" "NotObjectId \<in> set ids"
  shows "generate st title (Some ids) format user now = (500, st)"
proof -
  have "ids \<noteq> []" using assms(3) by auto
  then show ?thesis
    using assms(1,2) promise_all_rejected[OF assms(3)] by (simp add: generate_def)
qed

text \<open>
  C8, as the code has it. Report generation answers 400 (the status of a validation
  failure) when \<open>serviceIds\<close> is absent, not an array or empty; 404 (not found) when
  the title is given, every identifier is a well-formed ObjectId and none of them
  resolves to a service; and 500 when the title is given and an identifier is not a
  well-formed ObjectId, the lookup throwing on it. In each case the store is returned
  as it was, so no report is persisted.
\<close>

theorem generate_rejects:
  "(serviceIds = None \<or> serviceIds = Some [] \<longrightarrow>
      generate st title serviceIds format user now = (400, st)) \<and>
   (title = Some t \<and> t \<noteq> [] \<and> ids \<noteq> [] \<and>
    (\<forall>i \<in> set ids. \<exists>d. i = ObjectId d \<and> findOne (\<lambda>s. s_id s = d) (services st) = None) \<longrightarrow>
      generate st title (Some ids) format user now = (404, st)) \<and>
   (title = Some t \<and> t \<noteq> [] \<and> NotObjectId \<in> set ids \<longrightarrow>
      generate st title (Some ids) format user now = (500, st))"
  using generate_unresolved[of title t ids st format user now]
    generate_cast_failure[of title t ids st format user now]
  by (auto simp: generate_def split: option.splits)

theorem generate_rejects_witness:
  "generate orders_store (Some ''Weekly'') (Some []) None 9 50 = (400, orders_store) \<and>
   generate orders_store (Some ''Weekly'') (Some [ObjectId 7, ObjectId 8]) None 9 50 =
     (404, orders_store) \<and>
   generate orders_store (Some ''Weekly'') (Some [ObjectId 1, NotObjectId]) None 9 50 =
     (500, orders_store)"
proof -
  have u: "\<forall>i \<in> set [ObjectId 7, ObjectId 8].
             \<exists>d. i = ObjectId d \<and> findOne (\<lambda>s. s_id s = d) (services orders_store) = None"
    by (simp add: findOne_def orders_store_def)
  have a: "generate orders_store (Some ''Weekly'') (Some []) None 9 50 = (400, orders_store)"
    using generate_rejects[where serviceIds = "Some []" and st = orders_store
        and title = "Some ''Weekly''" and format = None and user = 9 and now = 50]
    by blast
  have b: "generate orders_store (Some ''Weekly'') (Some [ObjectId 7, ObjectId 8]) None 9 50 =
             (404, orders_store)"
    using u generate_rejects[where st = orders_store and title = "Some ''Weekly''"
        and t = "''Weekly''" and ids = "[ObjectId 7, ObjectId 8]" and format = None and user = 9
        and now = 50]
    by simp
  have c: "generate orders_store (Some ''Weekly'') (Some [ObjectId 1, NotObjectId]) None 9 50 =
             (500, orders_store)"
    using generate_rejects[where st = orders_store and title = "Some ''Weekly''"
        and t = "''Weekly''" and ids = "[ObjectId 1, NotObjectId]" and format = None and user = 9
        and now = 50]
    by simp
  show ?thesis
    using a b c by blast
qed

text \<open>
  C8 as stated fails: with a title and one well-formed identifier that resolves to no
  service, the answer is 404 and not the 400 of a validation failure.
\<close>

theorem generate_unresolved_counterexample:
  "fst (generate empty_store (Some ''Weekly'') (Some [ObjectId 7]) None 1 0) = 404 \<and>
   fst (generate empty_store (Some ''Weekly'') (Some [ObjectId 7]) None 1 0) \<noteq> 400"
  by (simp add: generate_def empty_store_def serviceDAO_findById_def findById_populated_def
      findOne_def Let_def)

section \<open>Properties of the version comparison\<close>

lemma pad_zero_length: "length (pad_zero n xs) = max n (length xs)"
  by (simp add: pad_zero_def)

lemma pad_zero_nth:
  "i < max n (length xs) \<Longrightarrow> pad_zero n xs ! i = (if i < length xs then xs ! i else 0)"
  by (simp add: pad_zero_def nth_append)

lemma compare_from_tuples:
  assumes "length current = length xs" "length latest = length ys"
    and "\<And>j. j < length xs \<Longrightarrow> part current j = Fin (of_nat (xs ! j))"
    and "\<And>j. j < length ys \<Longrightarrow> part latest j = Fin (of_nat (ys ! j))"
  shows "compare_from current latest i =
           (drop i (pad_zero (max (length xs) (length ys)) xs)
              < drop i (pad_zero (max (length xs) (length ys)) ys))"
  using assms
proof (induction current latest i rule: compare_from.induct)
  case (1 current latest i)
  let ?n = "max (length xs) (length ys)"
  have lx: "length (pad_zero ?n xs) = ?n" and ly: "length (pad_zero ?n ys) = ?n"
    by (simp_all add: pad_zero_length)
  show ?case
  proof (cases "i < ?n")
    case False
    then have "drop i (pad_zero ?n xs) = []" "drop i (pad_zero ?n ys) = []"
      using lx ly by (auto simp: not_less)
    then show ?thesis
      using False "1.prems"(1,2) by (subst compare_from.simps) simp
  next
    case True
    have pc: "part current i = Fin (of_nat (pad_zero ?n xs ! i))"
      using "1.prems"(1) "1.prems"(3)[of i] True by (simp add: pad_zero_nth part_def)
    have pl: "part latest i = Fin (of_nat (pad_zero ?n ys ! i))"
      using "1.prems"(2) "1.prems"(4)[of i] True by (simp add: pad_zero_nth part_def)
    have dx: "drop i (pad_zero ?n xs) = pad_zero ?n xs ! i # drop (Suc i) (pad_zero ?n xs)"
      using True lx by (simp add: Cons_nth_drop_Suc)
    have dy: "drop i (pad_zero ?n ys) = pad_zero ?n ys ! i # drop (Suc i) (pad_zero ?n ys)"
      using True ly by (simp add: Cons_nth_drop_Suc)
    show ?thesis
    proof (cases "pad_zero ?n xs ! i = pad_zero ?n ys ! i")
      case False
      then show ?thesis
        using True "1.prems"(1,2) pc pl
        by (subst compare_from.simps) (auto simp: dx dy Let_def)
    next
      case eq: True
      have "compare_from current latest (i + 1) =
              (drop (i + 1) (pad_zero ?n xs) < drop (i + 1) (pad_zero ?n ys))"
        using "1.IH"[OF _ refl refl] True "1.prems" pc pl eq by simp
      then show ?thesis
        using True "1.prems"(1,2) pc pl eq
        by (subst compare_from.simps) (simp add: dx dy Let_def)
    qed
  qed
qed


lemma to_double_exact: "n \<le> 2 ^ 53 \<Longrightarrow> to_double n = Fin (of_nat n)"
proof (cases "n < 2 ^ 53")
  case True
  then show ?thesis by (simp add: to_double_def)
next
  case False
  assume "n \<le> 2 ^ 53"
  with False have n: "n = 2 ^ 53" by simp
  have "floorlog 2 (Suc 0) = Suc 0"
    by (simp add: floorlog_def)
  then have fl: "floorlog 2 n = 54"
    using floorlog_power[of 1 2 53] by (simp add: n)
  show ?thesis
    unfolding to_double_def fl Let_def by (simp add: n)
qed

lemma is_digit_alphabet: "is_digit c \<Longrightarrow> c \<in> set numeric_alphabet"
  by (auto simp: is_digit_def numeric_alphabet_def)

lemma non_numeric_not_digits: "non_numeric s \<Longrightarrow> \<not> list_all is_digit s \<and> s \<noteq> []"
  by (auto simp: non_numeric_def list_ex_iff list_all_iff dest: is_digit_alphabet)

lemma Number_js_digits:
  "list_all is_digit s \<Longrightarrow> decimal_value s \<le> 2 ^ 53 \<Longrightarrow>
     Number_js other s = Fin (of_nat (segment_value s))"
  by (cases "s = []") (simp_all add: Number_js_def segment_value_def to_double_exact decimal_value_def)

lemma Number_js_non_numeric:
  "non_numeric s \<Longrightarrow> Number_js other s = NaN \<and> segment_value s = 0"
  using non_numeric_not_digits[of s] by (simp add: Number_js_def segment_value_def)

lemma part_map:
  assumes "j < length segs"
    and "Number_js other (segs ! j) = Fin (of_nat (segment_value (segs ! j))) \<or>
         (Number_js other (segs ! j) = NaN \<and> segment_value (segs ! j) = 0)"
  shows "part (map (Number_js other) segs) j = Fin (of_nat (map segment_value segs ! j))"
  using assms by (auto simp: part_def)

lemma isNewerVersion_tuples:
  assumes "\<And>s. s \<in> set (split_dot cur) \<union> set (split_dot lat) \<Longrightarrow>
             Number_js other s = Fin (of_nat (segment_value s)) \<or>
             (Number_js other s = NaN \<and> segment_value s = 0)"
  shows "isNewerVersion other cur lat =
           tuple_newer (map segment_value (split_dot cur)) (map segment_value (split_dot lat))"
proof -
  let ?xs = "map segment_value (split_dot cur)" and ?ys = "map segment_value (split_dot lat)"
  have "compare_from (map (Number_js other) (split_dot cur)) (map (Number_js other) (split_dot lat)) 0 =
          (drop 0 (pad_zero (max (length ?xs) (length ?ys)) ?xs)
             < drop 0 (pad_zero (max (length ?xs) (length ?ys)) ?ys))"
  proof (rule compare_from_tuples)
    fix j assume "j < length ?xs"
    then show "part (map (Number_js other) (split_dot cur)) j = Fin (of_nat (?xs ! j))"
      using assms[of "split_dot cur ! j"] by (intro part_map) simp_all
  next
    fix j assume "j < length ?ys"
    then show "part (map (Number_js other) (split_dot lat)) j = Fin (of_nat (?ys ! j))"
      using assms[of "split_dot lat ! j"] by (intro part_map) simp_all
  qed simp_all
  then show ?thesis
    by (simp add: isNewerVersion_def tuple_newer_def Let_def)
qed

lemma to_double_rounds: "to_double 9007199254740993 = Fin 9007199254740992"
proof -
  have "floorlog 2 (Suc 0) = Suc 0"
    by (simp add: floorlog_def)
  then have "floorlog 2 (9007199254740992::nat) = 54"
    using floorlog_power[of 1 2 53] by simp
  moreover have "floorlog 2 (9007199254740993::nat) = floorlog 2 (9007199254740992::nat)"
    by (rule floorlog_eq_if) simp_all
  ultimately have fl: "floorlog 2 (9007199254740993::nat) = 54"
    by simp
  show ?thesis
    unfolding to_double_def fl Let_def by simp
qed

lemma isNewer_rounding:
  "isNewerVersion other ''9007199254740992'' ''9007199254740993'' = False"
proof -
  have a: "Number_js other ''9007199254740992'' = Fin 9007199254740992"
    by (simp add: Number_js_def is_digit_def decimal_value_def digit_value_def to_double_exact)
  have b: "Number_js other ''9007199254740993'' = Fin 9007199254740992"
    by (simp add: Number_js_def is_digit_def decimal_value_def digit_value_def to_double_rounds)
  show ?thesis
    by (simp add: isNewerVersion_def a b part_def)
qed

lemma readable_segment_Number:
  "readable_segment s \<Longrightarrow>
     Number_js other s = Fin (of_nat (segment_value s)) \<or>
     (Number_js other s = NaN \<and> segment_value s = 0)"
  using Number_js_digits[of s other] Number_js_non_numeric[of s other]
  by (auto simp: readable_segment_def)

lemma isNewerVersion_readable:
  assumes "list_all readable_segment (split_dot cur)" "list_all readable_segment (split_dot lat)"
  shows "isNewerVersion other cur lat =
           tuple_newer (map segment_value (split_dot cur)) (map segment_value (split_dot lat))"
  using assms by (intro isNewerVersion_tuples readable_segment_Number) (auto simp: list_all_iff)

lemma numeric_readable: "numeric_segment s \<Longrightarrow> readable_segment s \<and> segment_value s = decimal_value s"
  by (simp add: numeric_segment_def readable_segment_def segment_value_def)

lemmas version_eval = numeric_segment_def readable_segment_def non_numeric_def numeric_alphabet_def
  is_digit_def decimal_value_def digit_value_def segment_value_def version_tuple_def
  tuple_newer_def pad_zero_def

text \<open>
  C3, as the code has it. For version strings whose segments are non-empty strings of
  decimal digits with values up to \<open>2^53\<close> (the integers a double holds exactly),
  \<open>isNewerVersion(current, latest)\<close> is true exactly when the tuple of \<open>latest\<close> is
  greater than the tuple of \<open>current\<close> in the lexicographic order, the shorter tuple
  padded with zeros.
\<close>

theorem isNewerVersion_numeric:
  assumes "list_all numeric_segment (split_dot cur)" "list_all numeric_segment (split_dot lat)"
  shows "isNewerVersion other cur lat = tuple_newer (version_tuple cur) (version_tuple lat)"
proof -
  have "list_all readable_segment (split_dot cur)" "list_all readable_segment (split_dot lat)"
    using assms by (simp_all add: list_all_iff numeric_readable)
  moreover have "map segment_value (split_dot cur) = version_tuple cur"
    "map segment_value (split_dot lat) = version_tuple lat"
    using assms by (simp_all add: list_all_iff numeric_readable version_tuple_def)
  ultimately show ?thesis
    using isNewerVersion_readable[of cur lat other] by simp
qed

text \<open>The three comparisons the specification lists, through the theorem.\<close>

theorem isNewerVersion_numeric_witness:
  "(\<forall>other. isNewerVersion other ''1.9.0'' ''1.10.0'') \<and>
   (\<forall>other. \<not> isNewerVersion other ''2.0.0'' ''1.9.9'') \<and>
   (\<forall>other. \<not> isNewerVersion other ''1.2'' ''1.2.0'')"
proof (intro conjI allI)
  fix other
  show "isNewerVersion other ''1.9.0'' ''1.10.0''"
    by (subst isNewerVersion_numeric) (simp_all add: version_eval)
  show "\<not> isNewerVersion other ''2.0.0'' ''1.9.9''"
    by (subst isNewerVersion_numeric) (simp_all add: version_eval)
  show "\<not> isNewerVersion other ''1.2'' ''1.2.0''"
    by (subst isNewerVersion_numeric) (simp_all add: version_eval)
qed

text \<open>
  C3 as stated, for all digit segments, fails: \<open>Number\<close> rounds
  \<open>9007199254740993\<close> (\<open>2^53 + 1\<close>) to \<open>9007199254740992\<close>, so the two versions compare
  equal although the second tuple is greater.
\<close>

theorem isNewerVersion_rounding_counterexample:
  "\<forall>other. isNewerVersion other ''9007199254740992'' ''9007199254740993'' \<noteq>
     tuple_newer (version_tuple ''9007199254740992'') (version_tuple ''9007199254740993'')"
  using isNewer_rounding by (simp add: version_eval)

text \<open>
  C4, as the code has it. \<open>isNewerVersion\<close> has no throwing step on strings, and a
  segment that is not numeric is compared as 0 instead of forcing the result to false:
  when every segment is made of digits (up to \<open>2^53\<close>) or has a character that no
  numeric literal contains, the result is the comparison of the tuples with the
  non-numeric segments read as 0.
\<close>

theorem isNewerVersion_non_numeric:
  assumes "list_all readable_segment (split_dot cur)" "list_all readable_segment (split_dot lat)"
  shows "isNewerVersion other cur lat =
           tuple_newer (map segment_value (split_dot cur)) (map segment_value (split_dot lat))"
  using assms by (rule isNewerVersion_readable)

theorem isNewerVersion_non_numeric_witness:
  "(\<forall>other. isNewerVersion other ''1.0.0-rc1'' ''1.0.1'') \<and>
   (\<forall>other. \<not> isNewerVersion other ''1.0.0-rc1'' ''1.0.0'')"
proof (intro conjI allI)
  fix other
  show "isNewerVersion other ''1.0.0-rc1'' ''1.0.1''"
    by (subst isNewerVersion_non_numeric) (simp_all add: version_eval)
  show "\<not> isNewerVersion other ''1.0.0-rc1'' ''1.0.0''"
    by (subst isNewerVersion_non_numeric) (simp_all add: version_eval)
qed

text \<open>
  C4 as stated fails: the current version \<open>1.0.0-rc1\<close> has the non-numeric segment
  \<open>0-rc1\<close>, and against \<open>1.0.1\<close> the comparison answers true, so \<open>updateAvailable\<close> is
  true.
\<close>

theorem isNewerVersion_prerelease_counterexample:
  "\<forall>other. non_numeric ''0-rc1'' \<and> isNewerVersion other ''1.0.0-rc1'' ''1.0.1''"
proof
  fix other
  have "isNewerVersion other ''1.0.0-rc1'' ''1.0.1''"
    by (subst isNewerVersion_readable) (simp_all add: version_eval)
  then show "non_numeric ''0-rc1'' \<and> isNewerVersion other ''1.0.0-rc1'' ''1.0.1''"
    by (simp add: version_eval)
qed

section \<open>Properties of the stack scanner\<close>

lemma find_append_Some: "find p xs = Some x \<Longrightarrow> find p (xs @ ys) = Some x"
  by (induction xs) (auto split: if_splits)

lemma find_append_None: "find p xs = None \<Longrightarrow> find p (xs @ ys) = find p ys"
  by (induction xs) (auto split: if_splits)

lemma update_first_same:
  "(\<And>x. find p xs = Some x \<Longrightarrow> f x = x) \<Longrightarrow> update_first p f xs = xs"
  by (induction xs) auto

lemma find_update_first:
  "(\<And>x. p (f x) = p x) \<Longrightarrow> find p (update_first p f xs) = map_option f (find p xs)"
  by (induction xs) auto

lemma addComponent_components [simp]: "components (addComponent st sid i) = components st"
  by (simp add: addComponent_def)

lemma addComponent_linked: "linked (addComponent st sid i) sid i"
  by (simp add: linked_def addComponent_def findOne_def find_update_first addToSet_def
      split: option.split)

lemma addComponent_linked_mono: "linked st sid j \<Longrightarrow> linked (addComponent st sid i) sid j"
  by (auto simp: linked_def addComponent_def findOne_def find_update_first addToSet_def
      split: option.splits)

lemma addComponent_same: "linked st sid i \<Longrightarrow> addComponent st sid i = st"
proof -
  assume l: "linked st sid i"
  have "update_first (\<lambda>s. s_id s = sid) (\<lambda>s. s\<lparr>s_components := addToSet i (s_components s)\<rparr>)
          (services st) = services st"
    using l by (intro update_first_same) (simp add: linked_def findOne_def addToSet_def)
  then show ?thesis
    by (simp add: addComponent_def)
qed

lemma create_linked_mono:
  "linked st sid j \<Longrightarrow> linked (snd (componentDAO_create st n v t now)) sid j"
  by (simp add: linked_def componentDAO_create_def Let_def)

lemma save_component_saved: "saved (save_component st sid now (n, v, t)) sid (n, v, t)"
  by (auto simp: saved_def save_component_def findOne_def componentDAO_create_def Let_def
      find_append_None addComponent_linked split: option.splits)

lemma save_component_mono:
  assumes "saved st sid k"
  shows "saved (save_component st sid now dc) sid k"
proof -
  obtain n v t where dc: "dc = (n, v, t)" by (cases dc)
  obtain n' v' t' where k: "k = (n', v', t')" by (cases k)
  from assms obtain c where c: "find (\<lambda>c. c_name c = n' \<and> c_version c = v') (components st) = Some c"
    and l: "linked st sid (c_id c)"
    by (auto simp: saved_def k findOne_def split: option.splits)
  show ?thesis
  proof (cases "find (\<lambda>c. c_name c = n \<and> c_version c = v) (components st)")
    case (Some d)
    then show ?thesis
      using c l by (simp add: saved_def k dc save_component_def findOne_def addComponent_linked_mono)
  next
    case None
    then show ?thesis
      using c l create_linked_mono[OF l, of n v t now]
      by (simp add: saved_def k dc save_component_def findOne_def addComponent_linked_mono
          find_append_Some componentDAO_create_def Let_def)
  qed
qed

lemma save_component_same: "saved st sid dc \<Longrightarrow> save_component st sid now dc = st"
  by (cases dc) (auto simp: saved_def save_component_def findOne_def addComponent_same
      split: option.splits)

lemma save_components_mono:
  "saved st sid k \<Longrightarrow> saved (save_components st sid now comps) sid k"
  by (induction comps arbitrary: st) (simp_all add: save_component_mono)

lemma save_components_saved:
  "dc \<in> set comps \<Longrightarrow> saved (save_components st sid now comps) sid dc"
proof (induction comps arbitrary: st)
  case Nil
  then show ?case by simp
next
  case (Cons x comps)
  show ?case
  proof (cases "dc = x")
    case True
    then show ?thesis
      using save_component_saved[of st sid now "fst x" "fst (snd x)" "snd (snd x)"]
      by (simp add: save_components_mono)
  next
    case False
    then show ?thesis using Cons by simp
  qed
qed

lemma save_components_same:
  "(\<And>dc. dc \<in> set comps \<Longrightarrow> saved st sid dc) \<Longrightarrow> save_components st sid now comps = st"
  by (induction comps) (simp_all add: save_component_same)

lemma set_update_first: "x \<in> set (update_first p f xs) \<Longrightarrow> x \<in> set xs \<or> (\<exists>y \<in> set xs. x = f y)"
  by (induction xs) (auto split: if_splits)

lemma map_update_first: "(\<And>x. g (f x) = g x) \<Longrightarrow> map g (update_first p f xs) = map g xs"
  by (induction xs) auto

lemma save_component_distinct_keys:
  "distinct_keys st \<Longrightarrow> distinct_keys (save_component st sid now dc)"
proof (cases dc)
  case (fields n v t)
  assume d: "distinct_keys st"
  show ?thesis
  proof (cases "find (\<lambda>c. c_name c = n \<and> c_version c = v) (components st)")
    case None
    then have "(n, v) \<notin> component_key ` set (components st)"
      by (auto simp: find_None_iff component_key_def)
    then show ?thesis
      using d None
      by (simp add: distinct_keys_def save_component_def fields findOne_def componentDAO_create_def
          Let_def component_key_def)
  next
    case (Some c)
    then show ?thesis
      using d by (simp add: distinct_keys_def save_component_def fields findOne_def)
  qed
qed

lemma addComponent_distinct_refs: "distinct_refs st \<Longrightarrow> distinct_refs (addComponent st sid i)"
  by (auto simp: distinct_refs_def list_all_iff addComponent_def addToSet_def
      dest!: set_update_first)

lemma save_component_distinct_refs:
  "distinct_refs st \<Longrightarrow> distinct_refs (save_component st sid now dc)"
proof (cases dc)
  case (fields n v t)
  assume d: "distinct_refs st"
  then have "distinct_refs (snd (componentDAO_create st n v t now))"
    by (simp add: distinct_refs_def componentDAO_create_def Let_def)
  then show ?thesis
    using d
    by (auto simp: save_component_def fields findOne_def addComponent_distinct_refs
        split: option.splits prod.splits)
qed

lemma save_components_distinct_keys:
  "distinct_keys st \<Longrightarrow> distinct_keys (save_components st sid now dcs)"
  by (induction dcs arbitrary: st) (simp_all add: save_component_distinct_keys)

lemma save_components_distinct_refs:
  "distinct_refs st \<Longrightarrow> distinct_refs (save_components st sid now dcs)"
  by (induction dcs arbitrary: st) (simp_all add: save_component_distinct_refs)

lemma mark_scanned_saved: "saved st sid k \<Longrightarrow> saved (mark_scanned st sid now) sid k"
  by (auto simp: saved_def linked_def mark_scanned_def findOne_def find_update_first
      split: option.splits prod.splits)

lemma mark_scanned_find:
  "findOne (\<lambda>s. s_id s = sid) (services (mark_scanned st sid now)) =
     map_option (\<lambda>s. s\<lparr>s_lastScan := Some now, s_status := Secure\<rparr>)
       (findOne (\<lambda>s. s_id s = sid) (services st))"
  by (simp add: mark_scanned_def findOne_def find_update_first)

lemma find_update_first_None:
  "(\<And>x. q (f x) = q x) \<Longrightarrow> (find q (update_first p f xs) = None) = (find q xs = None)"
  by (induction xs) auto

lemma find_update_first_Some:
  "(\<And>x. q (f x) = q x) \<Longrightarrow>
     (\<exists>y. find q (update_first p f xs) = Some y) = (\<exists>y. find q xs = Some y)"
  using find_update_first_None[of q f p xs] by (simp flip: not_None_eq)

lemma save_components_find:
  "findOne (\<lambda>s. s_id s = sid') (services st) \<noteq> None \<Longrightarrow>
   findOne (\<lambda>s. s_id s = sid') (services (save_components st sid now dcs)) \<noteq> None"
proof (induction dcs arbitrary: st)
  case Nil
  then show ?case by simp
next
  case (Cons dc dcs)
  obtain n v t where dc: "dc = (n, v, t)" by (cases dc)
  have "findOne (\<lambda>s. s_id s = sid') (services (save_component st sid now dc)) \<noteq> None"
    using Cons.prems
    by (simp add: dc save_component_def addComponent_def componentDAO_create_def Let_def findOne_def
        find_update_first_Some split: option.splits)
  then show ?case
    using Cons.IH by simp
qed

lemma scan_found:
  "findOne (\<lambda>s. s_id s = sid) (services st) = Some svc \<Longrightarrow>
   scan st (Some sid) now = (200, mark_scanned (save_components st sid now detectedComponents) sid now)"
  by (simp add: scan_def)

lemma scan_twice:
  assumes "findOne (\<lambda>s. s_id s = sid) (services st) = Some svc"
  shows "scan (snd (scan st (Some sid) now)) (Some sid) now' =
           (200, mark_scanned (snd (scan st (Some sid) now)) sid now')"
proof -
  let ?st1 = "save_components st sid now detectedComponents"
  let ?st2 = "mark_scanned ?st1 sid now"
  have s1: "scan st (Some sid) now = (200, ?st2)"
    using assms by (rule scan_found)
  have "findOne (\<lambda>s. s_id s = sid) (services ?st1) \<noteq> None"
    using assms by (intro save_components_find) simp
  then obtain svc2 where f2: "findOne (\<lambda>s. s_id s = sid) (services ?st2) = Some svc2"
    by (auto simp: mark_scanned_find)
  have "\<And>dc. dc \<in> set detectedComponents \<Longrightarrow> saved ?st2 sid dc"
    by (intro mark_scanned_saved save_components_saved)
  then have "save_components ?st2 sid now' detectedComponents = ?st2"
    by (rule save_components_same)
  then show ?thesis
    using scan_found[OF f2, of now'] s1 by simp
qed

lemma scan_not_found:
  "serviceId = None \<or> (\<exists>sid. serviceId = Some sid \<and> findOne (\<lambda>s. s_id s = sid) (services st) = None)
     \<Longrightarrow> snd (scan st serviceId now) = st"
  by (auto simp: scan_def)

text \<open>
  C6. Running the scan a second time on the same service leaves the component
  collection and every service's component references as the first run left them, and
  so does the loop over any list of discovered components run a second time with the
  same list; a scan keeps the (name, version) keys of the component collection
  distinct and the references of each service distinct.
\<close>

theorem scan_idempotent:
  "components (snd (scan (snd (scan st serviceId now)) serviceId now')) =
     components (snd (scan st serviceId now)) \<and>
   map s_components (services (snd (scan (snd (scan st serviceId now)) serviceId now'))) =
     map s_components (services (snd (scan st serviceId now))) \<and>
   save_components (save_components st sid now discovered) sid now' discovered =
     save_components st sid now discovered \<and>
   (distinct_keys st \<longrightarrow> distinct_keys (snd (scan st serviceId now))) \<and>
   (distinct_refs st \<longrightarrow> distinct_refs (snd (scan st serviceId now)))"
proof -
  have loop: "save_components (save_components st sid now discovered) sid now' discovered =
                save_components st sid now discovered"
    by (intro save_components_same save_components_saved)
  show ?thesis
  proof (cases "\<exists>i svc. serviceId = Some i \<and> findOne (\<lambda>s. s_id s = i) (services st) = Some svc")
    case False
    then have "\<And>t. snd (scan st serviceId t) = st"
      by (intro scan_not_found) (cases serviceId, auto)
    then show ?thesis
      using loop by simp
  next
    case True
    then obtain i svc where i: "serviceId = Some i"
      and f: "findOne (\<lambda>s. s_id s = i) (services st) = Some svc"
      by blast
    let ?st1 = "snd (scan st (Some i) now)"
    have two: "snd (scan ?st1 (Some i) now') = mark_scanned ?st1 i now'"
      using scan_twice[OF f, of now now'] by simp
    have one: "?st1 = mark_scanned (save_components st i now detectedComponents) i now"
      using scan_found[OF f, of now] by simp
    have k: "distinct_keys st \<Longrightarrow> distinct_keys ?st1"
      unfolding one using save_components_distinct_keys[of st i now detectedComponents]
      by (simp add: distinct_keys_def mark_scanned_def)
    have r: "distinct_refs st \<Longrightarrow> distinct_refs ?st1"
      unfolding one using save_components_distinct_refs[of st i now detectedComponents]
      by (auto simp: distinct_refs_def mark_scanned_def list_all_iff dest!: set_update_first)
    show ?thesis
      unfolding i two using k r loop
      by (simp add: mark_scanned_def map_update_first)
  qed
qed

theorem scan_idempotent_witness:
  "distinct_keys orders_store \<and> distinct_refs orders_store \<and>
   distinct_keys (snd (scan orders_store (Some 1) 10)) \<and>
   distinct_refs (snd (scan orders_store (Some 1) 10)) \<and>
   components (snd (scan (snd (scan orders_store (Some 1) 10)) (Some 1) 20)) =
     components (snd (scan orders_store (Some 1) 10))"
proof -
  have "distinct_keys orders_store" "distinct_refs orders_store"
    by (simp_all add: distinct_keys_def distinct_refs_def orders_store_def)
  then show ?thesis
    using scan_idempotent[where st = orders_store and serviceId = "Some 1" and now = 10 and now' = 20]
    by simp
qed

section \<open>Properties of the version checker\<close>

lemma create_update_notification:
  "notificationDAO_create st UpdateTitle (UpdateMessage a b c) NUpdate Info (Some sid) [] now =
     Some (st\<lparr>notifications := notifications st @
                 [update_notification (UpdateMessage a b c) now (next_oid st) sid],
               next_oid := next_oid st + 1\<rparr>)"
  by (simp add: notificationDAO_create_def msg_trim_def update_notification_def)

lemma update_first_distinct:
  "distinct (map g xs) \<Longrightarrow>
     update_first (\<lambda>x. g x = i) f xs = map (\<lambda>x. if g x = i then f x else x) xs"
proof (induction xs)
  case Nil
  then show ?case by simp
next
  case (Cons x xs)
  show ?case
  proof (cases "g x = i")
    case True
    have "g x \<notin> g ` set xs"
      using Cons.prems by simp
    then have "\<forall>y \<in> set xs. g y \<noteq> i"
      using True by blast
    then have "map (\<lambda>x. if g x = i then f x else x) xs = xs"
      by (induction xs) auto
    then show ?thesis
      using True by simp
  next
    case False
    then show ?thesis
      using Cons by simp
  qed
qed

lemma set_status_outdated:
  "distinct (map s_id (services st)) \<Longrightarrow>
     services (set_status st sid Outdated) = mark_outdated {sid} (services st)"
  by (simp add: set_status_def mark_outdated_def update_first_distinct)

lemma mark_outdated_ids: "map s_id (mark_outdated T xs) = map s_id xs"
  by (simp add: mark_outdated_def)

lemma mark_outdated_twice: "mark_outdated T (mark_outdated U xs) = mark_outdated (U \<union> T) xs"
  by (auto simp: mark_outdated_def)

lemma mark_outdated_empty: "mark_outdated {} xs = xs"
  by (simp add: mark_outdated_def)

lemma notify_or_keep_result:
  assumes "distinct (map s_id (services st))"
  shows "fst (notify_or_keep st (UpdateMessage a b c) now svcs) = 200 \<and>
         notifications (snd (notify_or_keep st (UpdateMessage a b c) now svcs)) =
           notifications st @
           map (\<lambda>(i, svc). update_notification (UpdateMessage a b c) now i (s_id svc))
             (zip [next_oid st ..< next_oid st + length svcs] svcs) \<and>
         services (snd (notify_or_keep st (UpdateMessage a b c) now svcs)) =
           mark_outdated {s_id s |s. s \<in> set svcs \<and> s_status s = Secure} (services st) \<and>
         components (snd (notify_or_keep st (UpdateMessage a b c) now svcs)) = components st"
  using assms
proof (induction svcs arbitrary: st)
  case Nil
  then show ?case by (simp add: mark_outdated_empty)
next
  case (Cons svc svcs)
  let ?m = "UpdateMessage a b c"
  let ?st1 = "st\<lparr>notifications := notifications st @ [update_notification ?m now (next_oid st) (s_id svc)],
                 next_oid := next_oid st + 1\<rparr>"
  let ?st2 = "if s_status svc = Secure then set_status ?st1 (s_id svc) Outdated else ?st1"
  have step: "notify_or_keep st ?m now (svc # svcs) = notify_or_keep ?st2 ?m now svcs"
    by (simp add: create_update_notification)
  have sv: "services ?st2 = mark_outdated (if s_status svc = Secure then {s_id svc} else {}) (services st)"
    using Cons.prems set_status_outdated[of ?st1 "s_id svc"] by (simp add: mark_outdated_empty)
  have d2: "distinct (map s_id (services ?st2))"
    using Cons.prems unfolding sv by (simp add: mark_outdated_ids)
  have n2: "notifications ?st2 = notifications st @ [update_notification ?m now (next_oid st) (s_id svc)]"
    "next_oid ?st2 = Suc (next_oid st)" "components ?st2 = components st"
    by (simp_all add: set_status_def)
  have up: "[next_oid st ..< next_oid st + length (svc # svcs)] =
              next_oid st # [Suc (next_oid st) ..< Suc (next_oid st) + length svcs]"
    by (simp add: upt_conv_Cons del: upt_Suc)
  have T: "(if s_status svc = Secure then {s_id svc} else {}) \<union>
             {s_id s |s. s \<in> set svcs \<and> s_status s = Secure} =
           {s_id s |s. s \<in> set (svc # svcs) \<and> s_status s = Secure}"
    by auto
  show ?case
    unfolding step up using Cons.IH[OF d2]
    by (simp only: n2 sv mark_outdated_twice T) simp
qed

lemma scan_orders: "scan orders_store (Some 1) 10 = (200, scanned_store)"
  by (simp add: scan_def mark_scanned_def orders_store_def scanned_store_def findOne_def
      detectedComponents_def save_component_def componentDAO_create_def addComponent_def
      addToSet_def Let_def)

lemma newer_detected:
  "isNewerVersion other ''16.14.0'' ''18.15.0''"
  "isNewerVersion other ''4.17.3'' ''4.18.2''"
  "isNewerVersion other ''5.0.6'' ''6.0.5''"
  by (subst isNewerVersion_readable; simp add: version_eval)+

lemma simulate_detected:
  "simulateVersionCheck succ ''Node.js'' t = JString ''18.15.0''"
  "simulateVersionCheck succ ''Express'' t = JString ''4.18.2''"
  "simulateVersionCheck succ ''MongoDB'' t = JString ''6.0.5''"
  by (simp_all add: simulateVersionCheck_def versions_def)

lemma check_scanned: "check_updates other succ scanned_store (Some 2) 20 = (200, checked_store)"
  by (simp add: check_updates_def scanned_store_def checked_store_def findOne_def
      simulate_detected newer_detected record_check_def notificationDAO_create_def msg_trim_def
      set_status_def Let_def)

lemma check_checked:
  "notifications (snd (check_updates other succ checked_store (Some 2) 30)) =
     [update_notification (UpdateMessage ''18.15.0'' ''Node.js'' ''16.14.0'') 20 5 1,
      update_notification (UpdateMessage ''18.15.0'' ''Node.js'' ''16.14.0'') 30 6 1]"
  by (simp add: check_updates_def checked_store_def findOne_def
      simulate_detected newer_detected record_check_def notificationDAO_create_def msg_trim_def
      set_status_def Let_def update_notification_def)

lemma rescan:
  "map s_status (services (snd (scan checked_store (Some 1) 30))) = [Secure] \<and>
   map (spec_status (snd (scan checked_store (Some 1) 30)))
     (services (snd (scan checked_store (Some 1) 30))) = [Outdated]"
  by (simp add: scan_def mark_scanned_def checked_store_def findOne_def
      detectedComponents_def save_component_def componentDAO_create_def addComponent_def
      addToSet_def Let_def spec_status_def blocking_vulnerability_def update_pending_def)

lemma check_all_scanned:
  "map c_updateAvailable (components (snd (check_all_updates other succ scanned_store 20))) =
     [True, True, True] \<and>
   services (snd (check_all_updates other succ scanned_store 20)) = services scanned_store \<and>
   map s_status (services (snd (check_all_updates other succ scanned_store 20))) = [Secure] \<and>
   notifications (snd (check_all_updates other succ scanned_store 20)) = []"
  by (simp add: check_all_updates_def scanned_store_def simulate_detected newer_detected
      record_check_def Let_def)

lemma notify_or_keep_notifications:
  "notifications (snd (notify_or_keep st (UpdateMessage a b c) now svcs)) =
     notifications st @
     map (\<lambda>(i, svc). update_notification (UpdateMessage a b c) now i (s_id svc))
       (zip [next_oid st ..< next_oid st + length svcs] svcs)"
proof (induction svcs arbitrary: st)
  case Nil
  then show ?case by simp
next
  case (Cons svc svcs)
  let ?m = "UpdateMessage a b c"
  let ?st1 = "st\<lparr>notifications := notifications st @ [update_notification ?m now (next_oid st) (s_id svc)],
                 next_oid := next_oid st + 1\<rparr>"
  let ?st2 = "if s_status svc = Secure then set_status ?st1 (s_id svc) Outdated else ?st1"
  have step: "notify_or_keep st ?m now (svc # svcs) = notify_or_keep ?st2 ?m now svcs"
    by (simp add: create_update_notification)
  have n2: "notifications ?st2 = notifications st @ [update_notification ?m now (next_oid st) (s_id svc)]"
    "next_oid ?st2 = Suc (next_oid st)"
    by (simp_all add: set_status_def)
  have up: "[next_oid st ..< next_oid st + length (svc # svcs)] =
              next_oid st # [Suc (next_oid st) ..< Suc (next_oid st) + length svcs]"
    by (simp add: upt_conv_Cons del: upt_Suc)
  show ?case
    unfolding step up Cons.IH by (simp only: n2) simp
qed

lemma mark_outdated_filter:
  assumes "distinct (map s_id xs)"
  shows "mark_outdated {s_id s |s. s \<in> set (filter P xs) \<and> s_status s = Secure} xs =
           map (\<lambda>s. if P s \<and> s_status s = Secure then s\<lparr>s_status := Outdated\<rparr> else s) xs"
proof -
  have inj: "inj_on s_id (set xs)"
    using assms by (simp add: distinct_map)
  have "\<And>s. s \<in> set xs \<Longrightarrow>
          (s_id s \<in> {s_id s |s. s \<in> set (filter P xs) \<and> s_status s = Secure}) =
          (P s \<and> s_status s = Secure)"
    using inj by (auto dest: inj_onD)
  then show ?thesis
    by (simp add: mark_outdated_def)
qed

lemma check_updates_newer:
  assumes "findOne (\<lambda>c. c_id c = cid) (components st) = Some c"
    and "simulateVersionCheck succ (c_name c) (c_type c) = JString latest"
    and "isNewerVersion other (c_version c) latest"
  shows "check_updates other succ st (Some cid) now =
           notify_or_keep (record_check st cid latest True now)
             (UpdateMessage latest (c_name c) (c_version c)) now
             (filter (\<lambda>s. cid \<in> set (s_components s)) (services st))"
  using assms by (simp add: check_updates_def Let_def record_check_def)

lemma check_updates_not_newer:
  assumes "\<not> newer_available other succ st cid"
  shows "services (snd (check_updates other succ st (Some cid) now)) = services st \<and>
         notifications (snd (check_updates other succ st (Some cid) now)) = notifications st"
  using assms
  by (auto simp: check_updates_def newer_available_def Let_def record_check_def
      split: option.splits jsval.splits)

lemma newer_availableD:
  assumes "newer_available other succ st cid"
  obtains c latest where "findOne (\<lambda>c. c_id c = cid) (components st) = Some c"
    "simulateVersionCheck succ (c_name c) (c_type c) = JString latest"
    "isNewerVersion other (c_version c) latest" "latest_of succ c = latest"
  using assms by (auto simp: newer_available_def latest_of_def split: option.splits jsval.splits)

text \<open>
  C1, as the code has it. The status is not recomputed from the associations. After
  \<open>POST /api/scan\<close> on an existing service its status is \<open>secure\<close>, whatever its
  associations. \<open>POST /api/check-updates\<close> (service identifiers being distinct) sets to
  \<open>outdated\<close> exactly the services that reference the checked component and are
  \<open>secure\<close>, when it finds a newer version, and changes no status otherwise.
\<close>

theorem status_transitions:
  "(findOne (\<lambda>s. s_id s = sid) (services st) \<noteq> None \<longrightarrow>
      map_option s_status (findOne (\<lambda>s. s_id s = sid) (services (snd (scan st (Some sid) now))))
        = Some Secure) \<and>
   (distinct (map s_id (services st)) \<longrightarrow>
      services (snd (check_updates other succ st (Some cid) now)) =
        (if newer_available other succ st cid
         then map (\<lambda>s. if cid \<in> set (s_components s) \<and> s_status s = Secure
                        then s\<lparr>s_status := Outdated\<rparr> else s) (services st)
         else services st))"
proof (intro conjI impI)
  assume "findOne (\<lambda>s. s_id s = sid) (services st) \<noteq> None"
  then obtain svc where f: "findOne (\<lambda>s. s_id s = sid) (services st) = Some svc"
    by auto
  have "findOne (\<lambda>s. s_id s = sid) (services (save_components st sid now detectedComponents)) \<noteq> None"
    using f by (intro save_components_find) simp
  then show "map_option s_status
               (findOne (\<lambda>s. s_id s = sid) (services (snd (scan st (Some sid) now)))) = Some Secure"
    using f by (auto simp: scan_def mark_scanned_find)
next
  assume d: "distinct (map s_id (services st))"
  show "services (snd (check_updates other succ st (Some cid) now)) =
        (if newer_available other succ st cid
         then map (\<lambda>s. if cid \<in> set (s_components s) \<and> s_status s = Secure
                        then s\<lparr>s_status := Outdated\<rparr> else s) (services st)
         else services st)"
  proof (cases "newer_available other succ st cid")
    case False
    then show ?thesis
      using check_updates_not_newer[of other succ st cid now] by simp
  next
    case True
    then obtain c latest where c: "findOne (\<lambda>c. c_id c = cid) (components st) = Some c"
      "simulateVersionCheck succ (c_name c) (c_type c) = JString latest"
      "isNewerVersion other (c_version c) latest"
      by (rule newer_availableD)
    have d1: "distinct (map s_id (services (record_check st cid latest True now)))"
      using d by (simp add: record_check_def)
    show ?thesis
      unfolding check_updates_newer[OF c]
      using notify_or_keep_result[OF d1, of latest "c_name c" "c_version c" now
          "filter (\<lambda>s. cid \<in> set (s_components s)) (services st)"]
        mark_outdated_filter[OF d, of "\<lambda>s. cid \<in> set (s_components s)"] True
      by (simp add: record_check_def)
  qed
qed

theorem status_transitions_witness:
  "findOne (\<lambda>s. s_id s = 1) (services orders_store) \<noteq> None \<and>
   map_option s_status
     (findOne (\<lambda>s. s_id s = 1) (services (snd (scan orders_store (Some 1) 10)))) = Some Secure \<and>
   distinct (map s_id (services scanned_store)) \<and>
   (\<forall>other succ. map s_status (services (snd (check_updates other succ scanned_store (Some 2) 20)))
      = [Outdated])"
proof -
  have f: "findOne (\<lambda>s. s_id s = 1) (services orders_store) \<noteq> None"
    by (simp add: findOne_def orders_store_def)
  have d: "distinct (map s_id (services scanned_store))"
    by (simp add: scanned_store_def)
  have n: "\<And>other succ. newer_available other succ scanned_store 2"
    by (simp add: newer_available_def scanned_store_def findOne_def simulate_detected newer_detected)
  have a: "map_option s_status
     (findOne (\<lambda>s. s_id s = 1) (services (snd (scan orders_store (Some 1) 10)))) = Some Secure"
    using f status_transitions[where st = orders_store and sid = 1 and now = 10] by blast
  have b: "\<And>other succ. map s_status (services (snd (check_updates other succ scanned_store (Some 2) 20)))
          = [Outdated]"
  proof -
    fix other succ
    have "services (snd (check_updates other succ scanned_store (Some 2) 20)) =
            map (\<lambda>s. if 2 \<in> set (s_components s) \<and> s_status s = Secure
                      then s\<lparr>s_status := Outdated\<rparr> else s) (services scanned_store)"
      using d n[of other succ]
        status_transitions[where st = scanned_store and cid = 2 and other = other and succ = succ
          and now = 20]
      by simp
    then show "map s_status (services (snd (check_updates other succ scanned_store (Some 2) 20)))
                 = [Outdated]"
      by (simp add: scanned_store_def)
  qed
  show ?thesis
    using f a d b by blast
qed

text \<open>
  C1 as stated fails: scan, then a version check of Node.js (which finds 18.15.0 and
  turns the service \<open>outdated\<close>), then a second scan. The service is \<open>secure\<close> again
  while its component still has \<open>updateAvailable = true\<close>, for which the invariants
  prescribe \<open>outdated\<close>.
\<close>

theorem scan_resets_status_counterexample:
  "\<forall>other succ.
     map s_status
       (services (snd (scan (snd (check_updates other succ (snd (scan orders_store (Some 1) 10))
                                   (Some 2) 20)) (Some 1) 30))) = [Secure] \<and>
     map (spec_status (snd (scan (snd (check_updates other succ (snd (scan orders_store (Some 1) 10))
                                        (Some 2) 20)) (Some 1) 30)))
       (services (snd (scan (snd (check_updates other succ (snd (scan orders_store (Some 1) 10))
                                   (Some 2) 20)) (Some 1) 30))) = [Outdated]"
  unfolding scan_orders check_scanned snd_conv using rescan by blast

text \<open>
  C2, as the code has it. Notification creation is unconditional: no existing
  notification is looked up. A \<open>POST /api/check-updates\<close> that finds a newer version
  appends one new notification for every service referencing the component, whatever the
  store already holds, and an accepted \<open>POST /api/notifications\<close> appends one.
\<close>

theorem check_updates_appends:
  "(newer_available other succ st cid \<and> findOne (\<lambda>c. c_id c = cid) (components st) = Some c \<longrightarrow>
      notifications (snd (check_updates other succ st (Some cid) now)) =
        notifications st @
        map (\<lambda>(i, svc). update_notification
                           (UpdateMessage (latest_of succ c) (c_name c) (c_version c)) now i (s_id svc))
          (zip [next_oid st ..< next_oid st + length (filter (\<lambda>s. cid \<in> set (s_components s)) (services st))]
               (filter (\<lambda>s. cid \<in> set (s_components s)) (services st)))) \<and>
   (fst (post_notification st title message type sev svc recipients now) = 201 \<longrightarrow>
      length (notifications (snd (post_notification st title message type sev svc recipients now))) =
        length (notifications st) + 1)"
proof (intro conjI impI)
  assume a: "newer_available other succ st cid \<and> findOne (\<lambda>c. c_id c = cid) (components st) = Some c"
  then obtain c' latest where c: "findOne (\<lambda>c. c_id c = cid) (components st) = Some c'"
      "simulateVersionCheck succ (c_name c') (c_type c') = JString latest"
      "isNewerVersion other (c_version c') latest" "latest_of succ c' = latest"
    by (auto elim: newer_availableD)
  have cc: "c' = c" using a c(1) by simp
  show "notifications (snd (check_updates other succ st (Some cid) now)) =
        notifications st @
        map (\<lambda>(i, svc). update_notification
                           (UpdateMessage (latest_of succ c) (c_name c) (c_version c)) now i (s_id svc))
          (zip [next_oid st ..< next_oid st + length (filter (\<lambda>s. cid \<in> set (s_components s)) (services st))]
               (filter (\<lambda>s. cid \<in> set (s_components s)) (services st)))"
    unfolding check_updates_newer[OF c(1-3)] notify_or_keep_notifications
    using c(4) cc by (simp add: record_check_def)
next
  assume "fst (post_notification st title message type sev svc recipients now) = 201"
  then show "length (notifications (snd (post_notification st title message type sev svc recipients now))) =
        length (notifications st) + 1"
    by (auto simp: post_notification_def notificationDAO_create_def
        split: if_splits option.splits prod.splits)
qed

theorem check_updates_appends_witness:
  "(\<forall>other succ. newer_available other succ scanned_store 2) \<and>
   findOne (\<lambda>c. c_id c = 2) (components scanned_store) = Some (hd (components scanned_store)) \<and>
   (\<forall>other succ. notifications (snd (check_updates other succ scanned_store (Some 2) 20)) =
      [update_notification (UpdateMessage ''18.15.0'' ''Node.js'' ''16.14.0'') 20 5 1]) \<and>
   fst (post_notification empty_store (Some ''t'') (Some ''m'') (Some ''system'') None None None 3)
     = 201 \<and>
   length (notifications
     (snd (post_notification empty_store (Some ''t'') (Some ''m'') (Some ''system'') None None None 3)))
     = 1"
proof -
  have n: "\<And>other succ. newer_available other succ scanned_store 2"
    by (simp add: newer_available_def scanned_store_def findOne_def simulate_detected newer_detected)
  have f: "findOne (\<lambda>c. c_id c = 2) (components scanned_store) = Some (hd (components scanned_store))"
    by (simp add: findOne_def scanned_store_def)
  have p: "fst (post_notification empty_store (Some ''t'') (Some ''m'') (Some ''system'') None None None 3)
             = 201"
    by (simp add: post_notification_def falsy_def notification_type_of_def severity_of_def
        notificationDAO_create_def msg_trim_def trim_def is_space_def empty_store_def)
  have l: "\<And>succ. latest_of succ (hd (components scanned_store)) = ''18.15.0''"
    by (simp add: latest_of_def scanned_store_def simulate_detected)
  have a: "\<And>other succ. notifications (snd (check_updates other succ scanned_store (Some 2) 20)) =
      [update_notification (UpdateMessage ''18.15.0'' ''Node.js'' ''16.14.0'') 20 5 1]"
  proof -
    fix other succ
    have "notifications (snd (check_updates other succ scanned_store (Some 2) 20)) =
        notifications scanned_store @
        map (\<lambda>(i, svc). update_notification
               (UpdateMessage (latest_of succ (hd (components scanned_store)))
                  (c_name (hd (components scanned_store)))
                  (c_version (hd (components scanned_store)))) 20 i (s_id svc))
          (zip [next_oid scanned_store ..<
                  next_oid scanned_store +
                  length (filter (\<lambda>s. 2 \<in> set (s_components s)) (services scanned_store))]
               (filter (\<lambda>s. 2 \<in> set (s_components s)) (services scanned_store)))"
      using n[of other succ] f
        check_updates_appends[where st = scanned_store and cid = 2 and other = other
          and succ = succ and c = "hd (components scanned_store)" and now = 20]
      by blast
    then show "notifications (snd (check_updates other succ scanned_store (Some 2) 20)) =
      [update_notification (UpdateMessage ''18.15.0'' ''Node.js'' ''16.14.0'') 20 5 1]"
      unfolding l by (simp add: scanned_store_def)
  qed
  have b: "length (notifications
     (snd (post_notification empty_store (Some ''t'') (Some ''m'') (Some ''system'') None None None 3)))
     = 1"
    using p check_updates_appends[where st = empty_store and title = "Some ''t''"
        and message = "Some ''m''" and type = "Some ''system''" and sev = None and svc = None
        and recipients = None and now = 3]
    by (simp add: empty_store_def)
  show ?thesis
    using n f a p b by blast
qed

text \<open>
  C2 as stated fails: running the version check of Node.js twice leaves two
  notifications for the same service, kind and fact.
\<close>

theorem check_updates_twice_counterexample:
  "\<forall>other succ.
     length (filter (\<lambda>n. n_service n = Some 1 \<and> n_type n = NUpdate \<and>
                         n_message n = UpdateMessage ''18.15.0'' ''Node.js'' ''16.14.0'')
       (notifications
          (snd (check_updates other succ (snd (check_updates other succ scanned_store (Some 2) 20))
                  (Some 2) 30)))) = 2"
  unfolding check_scanned snd_conv check_checked by (simp add: update_notification_def)

lemma check_each_frame:
  "services (snd (check_each other succ now st cs)) = services st \<and>
   notifications (snd (check_each other succ now st cs)) = notifications st"
  by (induction cs arbitrary: st) (simp_all add: record_check_def Let_def split: jsval.split)

text \<open>
  C5. \<open>POST /api/check-all-updates\<close> on the scanned store: \<open>updateAvailable = true\<close> is
  persisted on the three components, the service that references them stays \<open>secure\<close>
  and no notification is created; \<open>POST /api/check-updates\<close> on the same store turns
  the service \<open>outdated\<close> and creates one notification.
\<close>

theorem check_all_updates_skips_services:
  "\<forall>other succ.
     map c_updateAvailable (components (snd (check_all_updates other succ scanned_store 20))) =
       [True, True, True] \<and>
     map s_status (services (snd (check_all_updates other succ scanned_store 20))) = [Secure] \<and>
     notifications (snd (check_all_updates other succ scanned_store 20)) = [] \<and>
     map s_status (services (snd (check_updates other succ scanned_store (Some 2) 20))) = [Outdated] \<and>
     length (notifications (snd (check_updates other succ scanned_store (Some 2) 20))) = 1"
proof (intro allI)
  fix other succ
  have "map s_status (services (snd (check_updates other succ scanned_store (Some 2) 20))) = [Outdated]"
    "length (notifications (snd (check_updates other succ scanned_store (Some 2) 20))) = 1"
    unfolding check_scanned snd_conv by (simp_all add: checked_store_def)
  then show "map c_updateAvailable (components (snd (check_all_updates other succ scanned_store 20))) =
       [True, True, True] \<and>
     map s_status (services (snd (check_all_updates other succ scanned_store 20))) = [Secure] \<and>
     notifications (snd (check_all_updates other succ scanned_store 20)) = [] \<and>
     map s_status (services (snd (check_updates other succ scanned_store (Some 2) 20))) = [Outdated] \<and>
     length (notifications (snd (check_updates other succ scanned_store (Some 2) 20))) = 1"
    using check_all_scanned[of other succ] by blast
qed

section \<open>Properties of the notifier\<close>

text \<open>
  C10. \<open>markAllAsRead(u)\<close> rewrites the notification collection in place: a notification
  whose recipients contain \<open>u\<close> and whose read flag is false becomes the same document
  with \<open>read = true\<close>, every other notification stays as it is, every other collection
  stays as it is, and \<open>modifiedCount\<close> is the number of notifications rewritten.
\<close>

theorem markAllAsRead_frame:
  "length (notifications (snd (markAllAsRead st u))) = length (notifications st) \<and>
   (\<forall>i < length (notifications st).
      notifications (snd (markAllAsRead st u)) ! i =
        (if u \<in> set (n_recipients (notifications st ! i)) \<and> \<not> n_read (notifications st ! i)
         then (notifications st ! i)\<lparr>n_read := True\<rparr>
         else notifications st ! i)) \<and>
   (snd (markAllAsRead st u))\<lparr>notifications := notifications st\<rparr> = st \<and>
   fst (markAllAsRead st u) =
     length (filter (\<lambda>n. u \<in> set (n_recipients n) \<and> \<not> n_read n) (notifications st))"
proof -
  have "unread_for u = (\<lambda>n. u \<in> set (n_recipients n) \<and> \<not> n_read n)"
    by (simp add: fun_eq_iff unread_for_def)
  then show ?thesis
    by (simp add: markAllAsRead_def updateMany_def)
qed

theorem markAllAsRead_frame_witness:
  "(0::nat) < length (notifications inbox_store) \<and>
   notifications (snd (markAllAsRead inbox_store 7)) ! 0 =
     (notifications inbox_store ! 0)\<lparr>n_read := True\<rparr> \<and>
   notifications (snd (markAllAsRead inbox_store 7)) ! 1 = notifications inbox_store ! 1 \<and>
   notifications (snd (markAllAsRead inbox_store 7)) ! 2 = notifications inbox_store ! 2 \<and>
   fst (markAllAsRead inbox_store 7) = 1"
proof -
  have l: "length (notifications inbox_store) = 3"
    by (simp add: inbox_store_def)
  have "\<forall>i < 3. notifications (snd (markAllAsRead inbox_store 7)) ! i =
        (if 7 \<in> set (n_recipients (notifications inbox_store ! i)) \<and>
            \<not> n_read (notifications inbox_store ! i)
         then (notifications inbox_store ! i)\<lparr>n_read := True\<rparr>
         else notifications inbox_store ! i)"
    using markAllAsRead_frame[of inbox_store 7] unfolding l by blast
  then have "notifications (snd (markAllAsRead inbox_store 7)) ! 0 =
               (notifications inbox_store ! 0)\<lparr>n_read := True\<rparr>"
    "notifications (snd (markAllAsRead inbox_store 7)) ! 1 = notifications inbox_store ! 1"
    "notifications (snd (markAllAsRead inbox_store 7)) ! 2 = notifications inbox_store ! 2"
    by (simp_all add: inbox_store_def)
  moreover have "fst (markAllAsRead inbox_store 7) = 1"
    using markAllAsRead_frame[of inbox_store 7] by (simp add: inbox_store_def)
  ultimately show ?thesis
    using l by simp
qed

end
